theory Spec2Isabelle
  imports Main "HOL-Library.Word"
begin

section \<open>Data model of the DynamoDB event store (eventstore.go)\<close>

text \<open>
  \<open>uuid.UUID\<close> is a 16-byte array; Go's \<open>int\<close> is taken at its 64-bit width, so
  \<open>version + 1\<close> wraps around and the store orders the range key by its signed value.
  \<open>time.Time\<close> and the metadata map are only copied by the code and are kept opaque.
\<close>

type_synonym UUID = "128 word"
type_synonym GoInt = "64 word"
type_synonym EventType = string
type_synonym AggregateType = string
type_synonym Time = int
type_synonym Metadata = "(string \<times> string) list"

text \<open>
  An \<open>eh.Event\<close> is an interface value; the record holds what its seven accessor
  methods return. \<open>Data()\<close> is an interface that may be nil.
\<close>

record 'd Event =
  evEventType :: EventType
  evData :: "'d option"
  evTimestamp :: Time
  evAggregateType :: AggregateType
  evAggregateID :: UUID
  evVersion :: GoInt
  evMetadata :: Metadata

text \<open>The struct \<open>dbEvent\<close>; \<open>data\<close> is its unexported field.\<close>

record ('d, 'r) dbEvent =
  AggregateID :: UUID
  Version :: GoInt
  EventType :: EventType
  RawData :: "'r option"
  data :: "'d option"
  Timestamp :: Time
  AggregateType :: AggregateType
  Metadata :: Metadata

text \<open>
  The struct \<open>event\<close> embeds a \<open>dbEvent\<close> and implements \<open>eh.Event\<close> by returning
  its fields: \<open>event\<close> is the view of a loaded record through those methods.
\<close>

definition event :: "('d, 'r) dbEvent \<Rightarrow> 'd Event" where
  "event e = \<lparr>evEventType = EventType e, evData = data e, evTimestamp = Timestamp e,
     evAggregateType = AggregateType e, evAggregateID = AggregateID e,
     evVersion = Version e, evMetadata = Metadata e\<rparr>"

subsection \<open>Errors\<close>

text \<open>
  An error returned by the store's client either implements \<open>awserr.RequestFailure\<close>
  (it then has a \<open>Code()\<close>) or it does not (a transport failure, a cancelled request,
  a failure to decode an item).
\<close>

datatype aws_error = RequestFailure string | OtherFailure string

datatype err =
    ErrMissingEvents
  | ErrMismatchedEventAggregateIDs
  | ErrIncorrectEventVersion
  | ErrAggregateNotFound
  | ErrMissingEvent
  | ErrCouldNotClearDB
  | ErrCouldNotMarshalEvent
  | ErrCouldNotUnmarshalEvent
  | ErrCouldNotSaveAggregate
  | StoreFailure aws_error

datatype EventStoreOperation =
  EventStoreOpUnset | EventStoreOpSave | EventStoreOpLoad | EventStoreOpReplace

text \<open>
  \<open>eh.EventStoreError\<close>. A field the code leaves out of the struct literal has Go's
  zero value: the unset operation, the empty string, \<open>uuid.Nil\<close>, 0, the nil slice.
\<close>

record 'd EventStoreError =
  Err :: err
  Op :: EventStoreOperation
  errAggregateType :: AggregateType
  errAggregateID :: UUID
  AggregateVersion :: GoInt
  Events :: "'d Event list"

definition EventStoreError0 :: "err \<Rightarrow> 'd EventStoreError" where
  "EventStoreError0 e = \<lparr>Err = e, Op = EventStoreOpUnset, errAggregateType = [],
     errAggregateID = 0, AggregateVersion = 0, Events = []\<rparr>"

text \<open>
  The operations return either a pointer to an \<open>eh.EventStoreError\<close> or one of the
  sentinel errors itself (\<open>Replace\<close> returns \<open>eh.ErrAggregateNotFound\<close> unwrapped).
\<close>

datatype 'd error = StoreError "'d EventStoreError" | Sentinel err

subsection \<open>The codec and the event-data registry\<close>

text \<open>
  Modelled from the spec: the codec and registry collaborator of section 6 (packages
  \<open>eventhorizon\<close> and \<open>dynamodbattribute\<close>), which is not part of the repository,
  taken as a parameter. \<open>CreateEventData\<close> is
  \<open>eh.CreateEventData\<close> (None when no constructor is registered for the type tag),
  \<open>MarshalMap\<close> is \<open>dynamodbattribute.MarshalMap\<close> (None when it returns an error),
  \<open>UnmarshalMap raw d\<close> is \<open>dynamodbattribute.UnmarshalMap\<close> decoding \<open>raw\<close> into
  the instance \<open>d\<close> (None when it returns an error).
\<close>

record ('d, 'r) codec =
  CreateEventData :: "EventType \<Rightarrow> 'd option"
  MarshalMap :: "'d \<Rightarrow> 'r option"
  UnmarshalMap :: "'r option \<Rightarrow> 'd \<Rightarrow> 'd option"

subsection \<open>The store\<close>

text \<open>
  Modelled from the spec: the storage collaborator of sections 1 and 6 (point lookup,
  range read of one partition, full scan with a filter, conditional put, conditional
  attribute update), which is not part of the repository. The table is absent (None)
  or holds its items, at most one for each key \<open>(AggregateID, Version)\<close>. \<open>faults\<close>
  lists what the transport does to the coming requests, one entry for each request
  (None: the request is served; no entry left: served); \<open>requests\<close> counts the
  requests issued. A request that fails changes nothing in the table.
\<close>

record ('d, 'r) store =
  table :: "('d, 'r) dbEvent list option"
  faults :: "aws_error option list"
  requests :: nat

text \<open>
  The key of a record: the struct tags of \<open>dbEvent\<close> make \<open>AggregateID\<close> the hash key
  and \<open>Version\<close> the range key.
\<close>

definition key :: "('d, 'r) dbEvent \<Rightarrow> UUID \<times> GoInt" where
  "key e = (AggregateID e, Version e)"

text \<open>The unexported field \<open>data\<close> is neither written to an item nor read from one.\<close>

definition item :: "('d, 'r) dbEvent \<Rightarrow> ('d, 'r) dbEvent" where
  "item e = e\<lparr>data := None\<rparr>"

text \<open>
  Modelled from the spec: a request is sent to the store. It is counted, and the
  transport serves it or fails it as \<open>faults\<close> says.
\<close>

definition issue :: "('d, 'r) store \<Rightarrow> aws_error option \<times> ('d, 'r) store" where
  "issue s =
     (case faults s of
        [] \<Rightarrow> (None, s\<lparr>requests := Suc (requests s)\<rparr>)
      | f # fs \<Rightarrow> (f, s\<lparr>faults := fs, requests := Suc (requests s)\<rparr>))"

text \<open>
  Modelled from the spec: the conditional put with the predicate of absence,
  \<open>table.Put(e).If("attribute_not_exists(AggregateID) AND attribute_not_exists(Version)").Run()\<close>.
  The predicate is evaluated on the item that has the key of \<open>e\<close>: it holds when
  there is none.
\<close>

definition Put_If_not_exists ::
  "('d, 'r) dbEvent \<Rightarrow> ('d, 'r) store \<Rightarrow> aws_error option \<times> ('d, 'r) store" where
  "Put_If_not_exists e s =
     (case issue s of
        (Some failure, s') \<Rightarrow> (Some failure, s')
      | (None, s') \<Rightarrow>
          (case table s' of
             None \<Rightarrow> (Some (RequestFailure ''ResourceNotFoundException''), s')
           | Some items \<Rightarrow>
               if key e \<in> set (map key items)
               then (Some (RequestFailure ''ConditionalCheckFailedException''), s')
               else (None, s'\<lparr>table := Some (items @ [item e])\<rparr>)))"

text \<open>
  Modelled from the spec: the conditional put with the predicate of presence,
  \<open>table.Put(e).If("attribute_exists(AggregateID) AND attribute_exists(Version)").Run()\<close>.
  A put replaces the whole item at the key.
\<close>

definition Put_If_exists ::
  "('d, 'r) dbEvent \<Rightarrow> ('d, 'r) store \<Rightarrow> aws_error option \<times> ('d, 'r) store" where
  "Put_If_exists e s =
     (case issue s of
        (Some failure, s') \<Rightarrow> (Some failure, s')
      | (None, s') \<Rightarrow>
          (case table s' of
             None \<Rightarrow> (Some (RequestFailure ''ResourceNotFoundException''), s')
           | Some items \<Rightarrow>
               if key e \<in> set (map key items)
               then (None, s'\<lparr>table :=
                       Some (map (\<lambda>r. if key r = key e then item e else r) items)\<rparr>)
               else (Some (RequestFailure ''ConditionalCheckFailedException''), s')))"

text \<open>
  Modelled from the spec: the strongly consistent range read of one partition,
  \<open>table.Get("AggregateID", id).Consistent(true).All(&dbEvents)\<close>: the items of the
  partition in ascending order of the range key. The result is the pair of what
  \<open>dbEvents\<close> holds afterwards (nil when the request failed) and the error.
\<close>

definition Get_All ::
  "UUID \<Rightarrow> ('d, 'r) store \<Rightarrow> (('d, 'r) dbEvent list \<times> aws_error option) \<times> ('d, 'r) store" where
  "Get_All aid s =
     (case issue s of
        (Some failure, s') \<Rightarrow> (([], Some failure), s')
      | (None, s') \<Rightarrow>
          (case table s' of
             None \<Rightarrow> (([], Some (RequestFailure ''ResourceNotFoundException'')), s')
           | Some items \<Rightarrow>
               ((sort_key (\<lambda>r. sint (Version r))
                   (map item (filter (\<lambda>r. AggregateID r = aid) items)), None), s')))"

text \<open>
  Modelled from the spec: the count of the items of one partition,
  \<open>table.Get("AggregateID", id).Consistent(true).Count()\<close>.
\<close>

definition Get_Count ::
  "UUID \<Rightarrow> ('d, 'r) store \<Rightarrow> (nat \<times> aws_error option) \<times> ('d, 'r) store" where
  "Get_Count aid s =
     (case issue s of
        (Some failure, s') \<Rightarrow> ((0, Some failure), s')
      | (None, s') \<Rightarrow>
          (case table s' of
             None \<Rightarrow> ((0, Some (RequestFailure ''ResourceNotFoundException'')), s')
           | Some items \<Rightarrow>
               ((length (filter (\<lambda>r. AggregateID r = aid) items), None), s')))"

text \<open>
  Modelled from the spec: the full scan, \<open>table.Scan().Consistent(true).All(&dbEvents)\<close>,
  in the order in which the table holds its items.
\<close>

definition Scan_All ::
  "('d, 'r) store \<Rightarrow> (('d, 'r) dbEvent list \<times> aws_error option) \<times> ('d, 'r) store" where
  "Scan_All s =
     (case issue s of
        (Some failure, s') \<Rightarrow> (([], Some failure), s')
      | (None, s') \<Rightarrow>
          (case table s' of
             None \<Rightarrow> (([], Some (RequestFailure ''ResourceNotFoundException'')), s')
           | Some items \<Rightarrow> ((map item items, None), s')))"

text \<open>
  Modelled from the spec: the full scan with a filter on the type tag,
  \<open>table.Scan().Filter("EventType = ?", from).Consistent(true).All(&dbEvents)\<close>.
\<close>

definition Scan_Filter ::
  "EventType \<Rightarrow> ('d, 'r) store \<Rightarrow> (('d, 'r) dbEvent list \<times> aws_error option) \<times> ('d, 'r) store" where
  "Scan_Filter from s =
     (case issue s of
        (Some failure, s') \<Rightarrow> (([], Some failure), s')
      | (None, s') \<Rightarrow>
          (case table s' of
             None \<Rightarrow> (([], Some (RequestFailure ''ResourceNotFoundException'')), s')
           | Some items \<Rightarrow>
               ((map item (filter (\<lambda>r. EventType r = from) items), None), s')))"

text \<open>
  Modelled from the spec: the conditional update of one attribute,
  \<open>table.Update("AggregateID", a).Range("Version", v).If("EventType = ?", from).Set("EventType", to).Run()\<close>.
  The condition is evaluated on the item at the key and fails when there is none.
\<close>

definition Update_If_Set ::
  "UUID \<Rightarrow> GoInt \<Rightarrow> EventType \<Rightarrow> EventType \<Rightarrow> ('d, 'r) store
     \<Rightarrow> aws_error option \<times> ('d, 'r) store" where
  "Update_If_Set aid v from to s =
     (case issue s of
        (Some failure, s') \<Rightarrow> (Some failure, s')
      | (None, s') \<Rightarrow>
          (case table s' of
             None \<Rightarrow> (Some (RequestFailure ''ResourceNotFoundException''), s')
           | Some items \<Rightarrow>
               (case find (\<lambda>r. key r = (aid, v)) items of
                  None \<Rightarrow> (Some (RequestFailure ''ConditionalCheckFailedException''), s')
                | Some r0 \<Rightarrow>
                    if EventType r0 = from
                    then (None, s'\<lparr>table :=
                            Some (map (\<lambda>r. if key r = (aid, v) then r\<lparr>EventType := to\<rparr> else r)
                                    items)\<rparr>)
                    else (Some (RequestFailure ''ConditionalCheckFailedException''), s'))))"

section \<open>The operations of eventstore.go\<close>

subsection \<open>newDBEvent\<close>

definition newDBEvent :: "('d, 'r) codec \<Rightarrow> 'd Event \<Rightarrow> 'd error + ('d, 'r) dbEvent" where
  "newDBEvent c ev =
     (case (case evData ev of
              None \<Rightarrow> Inr None
            | Some d \<Rightarrow>
                (case MarshalMap c d of
                   None \<Rightarrow> Inl (StoreError (EventStoreError0 ErrCouldNotMarshalEvent))
                 | Some raw \<Rightarrow> Inr (Some raw))) of
        Inl e \<Rightarrow> Inl e
      | Inr rawData \<Rightarrow>
          Inr \<lparr>AggregateID = evAggregateID ev, Version = evVersion ev,
               EventType = evEventType ev, RawData = rawData, data = None,
               Timestamp = evTimestamp ev, AggregateType = evAggregateType ev,
               Metadata = evMetadata ev\<rparr>)"

subsection \<open>Save\<close>

text \<open>
  The error that \<open>Save\<close> builds inside its loop: \<open>at\<close> and \<open>id\<close> come from
  \<open>events[0]\<close>, the version is \<open>originalVersion\<close>, and the whole batch is attached.
\<close>

definition SaveError :: "err \<Rightarrow> 'd Event \<Rightarrow> 'd Event list \<Rightarrow> GoInt \<Rightarrow> 'd error" where
  "SaveError e e0 events originalVersion =
     StoreError \<lparr>Err = e, Op = EventStoreOpSave, errAggregateType = evAggregateType e0,
       errAggregateID = evAggregateID e0, AggregateVersion = originalVersion,
       Events = events\<rparr>"

text \<open>
  The loop of \<open>Save\<close> over the events still to be processed; \<open>e0\<close> is \<open>events[0]\<close>,
  \<open>version\<close> the running counter.
\<close>

fun Save_loop ::
  "('d, 'r) codec \<Rightarrow> 'd Event \<Rightarrow> 'd Event list \<Rightarrow> GoInt \<Rightarrow> GoInt \<Rightarrow> 'd Event list
     \<Rightarrow> ('d, 'r) store \<Rightarrow> 'd error option \<times> ('d, 'r) store" where
  "Save_loop c e0 events originalVersion version [] s = (None, s)"
| "Save_loop c e0 events originalVersion version (ev # rest) s =
     (if evAggregateID ev \<noteq> evAggregateID e0
      then (Some (SaveError ErrMismatchedEventAggregateIDs e0 events originalVersion), s)
      else if evVersion ev \<noteq> version + 1
      then (Some (SaveError ErrIncorrectEventVersion e0 events originalVersion), s)
      else
        (case newDBEvent c ev of
           Inl e \<Rightarrow> (Some e, s)
         | Inr e \<Rightarrow>
             (case Put_If_not_exists e s of
                (Some failure, s') \<Rightarrow>
                  (case failure of
                     RequestFailure code \<Rightarrow>
                       if code = ''ConditionalCheckFailedException''
                       then (Some (SaveError ErrCouldNotSaveAggregate e0 events originalVersion), s')
                       else (Some (SaveError (StoreFailure failure) e0 events originalVersion), s')
                   | OtherFailure m \<Rightarrow>
                       (Some (SaveError (StoreFailure failure) e0 events originalVersion), s'))
              | (None, s') \<Rightarrow>
                  Save_loop c e0 events originalVersion (version + 1) rest s')))"

definition Save ::
  "('d, 'r) codec \<Rightarrow> 'd Event list \<Rightarrow> GoInt \<Rightarrow> ('d, 'r) store
     \<Rightarrow> 'd error option \<times> ('d, 'r) store" where
  "Save c events originalVersion s =
     (case events of
        [] \<Rightarrow> (Some (StoreError ((EventStoreError0 ErrMissingEvents)\<lparr>Op := EventStoreOpSave\<rparr>)), s)
      | e0 # _ \<Rightarrow> Save_loop c e0 events originalVersion originalVersion events s)"

subsection \<open>buildEvents and Load\<close>

fun buildEvents :: "('d, 'r) codec \<Rightarrow> ('d, 'r) dbEvent list \<Rightarrow> 'd error + ('d, 'r) dbEvent list" where
  "buildEvents c [] = Inr []"
| "buildEvents c (dbEvent # rest) =
     (case CreateEventData c (EventType dbEvent) of
        Some d0 \<Rightarrow>
          (case UnmarshalMap c (RawData dbEvent) d0 of
             None \<Rightarrow> Inl (StoreError ((EventStoreError0 ErrCouldNotUnmarshalEvent)\<lparr>Op := EventStoreOpLoad\<rparr>))
           | Some d \<Rightarrow>
               (case buildEvents c rest of
                  Inl e \<Rightarrow> Inl e
                | Inr events \<Rightarrow> Inr (dbEvent\<lparr>data := Some d, RawData := None\<rparr> # events)))
      | None \<Rightarrow>
          (case buildEvents c rest of
             Inl e \<Rightarrow> Inl e
           | Inr events \<Rightarrow> Inr (dbEvent # events)))"

text \<open>
  In \<open>Load\<close> the \<open>err\<close> of \<open>else if err != nil\<close> is the variable that the type assertion
  \<open>err, ok := err.(awserr.RequestFailure)\<close> declares: it is nil whenever the assertion
  fails, so the branch is taken only for a request failure with another code, and any
  other outcome goes on to \<open>buildEvents\<close> with what \<open>dbEvents\<close> holds.
\<close>

definition Load ::
  "('d, 'r) codec \<Rightarrow> UUID \<Rightarrow> ('d, 'r) store
     \<Rightarrow> ('d error + ('d, 'r) dbEvent list) \<times> ('d, 'r) store" where
  "Load c aid s =
     (case Get_All aid s of
        ((dbEvents, failure), s') \<Rightarrow>
          (case failure of
             Some (RequestFailure code) \<Rightarrow>
               if code = ''ResourceNotFoundException''
               then (Inr [], s')
               else (Inl (StoreError ((EventStoreError0 (StoreFailure (RequestFailure code)))
                            \<lparr>Op := EventStoreOpLoad, errAggregateID := aid\<rparr>)), s')
           | Some (OtherFailure m) \<Rightarrow> (buildEvents c dbEvents, s')
           | None \<Rightarrow> (buildEvents c dbEvents, s')))"

text \<open>\<open>LoadAll\<close> tests the error that the scan returned.\<close>

definition LoadAll ::
  "('d, 'r) codec \<Rightarrow> ('d, 'r) store
     \<Rightarrow> ('d error + ('d, 'r) dbEvent list) \<times> ('d, 'r) store" where
  "LoadAll c s =
     (case Scan_All s of
        ((dbEvents, Some failure), s') \<Rightarrow>
          (Inl (StoreError ((EventStoreError0 (StoreFailure failure))
                  \<lparr>Op := EventStoreOpLoad\<rparr>)), s')
      | ((dbEvents, None), s') \<Rightarrow> (buildEvents c dbEvents, s'))"

subsection \<open>Replace\<close>

definition Replace ::
  "('d, 'r) codec \<Rightarrow> 'd Event \<Rightarrow> ('d, 'r) store \<Rightarrow> 'd error option \<times> ('d, 'r) store" where
  "Replace c ev s =
     (case Get_Count (evAggregateID ev) s of
        ((count, Some failure), s') \<Rightarrow>
          (Some (StoreError ((EventStoreError0 (StoreFailure failure))\<lparr>Op := EventStoreOpReplace\<rparr>)), s')
      | ((count, None), s') \<Rightarrow>
          if count = 0 then (Some (Sentinel ErrAggregateNotFound), s')
          else
            (case newDBEvent c ev of
               Inl e \<Rightarrow> (Some e, s')
             | Inr e \<Rightarrow>
                 (case Put_If_exists e s' of
                    (Some failure, s'') \<Rightarrow>
                      (case failure of
                         RequestFailure code \<Rightarrow>
                           if code = ''ConditionalCheckFailedException''
                           then (Some (Sentinel ErrMissingEvent), s'')
                           else (Some (StoreError ((EventStoreError0 (StoreFailure failure))
                                         \<lparr>Op := EventStoreOpReplace\<rparr>)), s'')
                       | OtherFailure m \<Rightarrow>
                           (Some (StoreError ((EventStoreError0 (StoreFailure failure))
                                    \<lparr>Op := EventStoreOpReplace\<rparr>)), s''))
                  | (None, s'') \<Rightarrow> (None, s''))))"

subsection \<open>RenameEvent\<close>

fun RenameEvent_loop ::
  "EventType \<Rightarrow> EventType \<Rightarrow> ('d, 'r) dbEvent list \<Rightarrow> ('d, 'r) store
     \<Rightarrow> 'd error option \<times> ('d, 'r) store" where
  "RenameEvent_loop from to [] s = (None, s)"
| "RenameEvent_loop from to (dbEvent # rest) s =
     (case Update_If_Set (AggregateID dbEvent) (Version dbEvent) from to s of
        (Some failure, s') \<Rightarrow> (Some (StoreError (EventStoreError0 (StoreFailure failure))), s')
      | (None, s') \<Rightarrow> RenameEvent_loop from to rest s')"

definition RenameEvent ::
  "EventType \<Rightarrow> EventType \<Rightarrow> ('d, 'r) store \<Rightarrow> 'd error option \<times> ('d, 'r) store" where
  "RenameEvent from to s =
     (case Scan_Filter from s of
        ((dbEvents, Some failure), s') \<Rightarrow>
          (Some (StoreError (EventStoreError0 (StoreFailure failure))), s')
      | ((dbEvents, None), s') \<Rightarrow> RenameEvent_loop from to dbEvents s')"

section \<open>Notions used by the statements\<close>

text \<open>The next request to the store is served, not failed by the transport.\<close>

definition served :: "('d, 'r) store \<Rightarrow> bool" where
  "served s = (fst (issue s) = None)"

text \<open>
  The codec gives an event's payload back: an event without a payload has a type tag
  with no registered constructor (so that it is loaded with a nil payload again), and
  the payload of any other event, once marshalled, decodes into the instance that the
  registered constructor creates as the same value.
\<close>

definition roundtrips :: "('d, 'r) codec \<Rightarrow> 'd Event \<Rightarrow> bool" where
  "roundtrips c ev =
     (case evData ev of
        None \<Rightarrow> CreateEventData c (evEventType ev) = None
      | Some d \<Rightarrow>
          (case CreateEventData c (evEventType ev) of
             None \<Rightarrow> False
           | Some d0 \<Rightarrow>
               (case MarshalMap c d of
                  None \<Rightarrow> False
                | Some raw \<Rightarrow> UnmarshalMap c (Some raw) d0 = Some d)))"

text \<open>
  What a load makes of an event that was saved. \<open>stored_payload\<close> is the \<open>RawData\<close>
  that \<open>newDBEvent\<close> stores for the event (absent for an event without payload).
  The load fails on the record (\<open>reload_fails\<close>) when the type tag has a constructor
  and that stored payload does not decode into the instance the constructor creates;
  otherwise \<open>reloaded\<close> is the payload of the loaded event: nil when the type tag
  has no constructor, else the result of the decoding.
\<close>

definition stored_payload :: "('d, 'r) codec \<Rightarrow> 'd Event \<Rightarrow> 'r option" where
  "stored_payload c ev = (case evData ev of None \<Rightarrow> None | Some d \<Rightarrow> MarshalMap c d)"

definition reload_fails :: "('d, 'r) codec \<Rightarrow> 'd Event \<Rightarrow> bool" where
  "reload_fails c ev =
     (case CreateEventData c (evEventType ev) of
        None \<Rightarrow> False
      | Some d0 \<Rightarrow> UnmarshalMap c (stored_payload c ev) d0 = None)"

definition reloaded :: "('d, 'r) codec \<Rightarrow> 'd Event \<Rightarrow> 'd option" where
  "reloaded c ev =
     (case CreateEventData c (evEventType ev) of
        None \<Rightarrow> None
      | Some d0 \<Rightarrow> UnmarshalMap c (stored_payload c ev) d0)"


text \<open>
  A record that \<open>buildEvents\<close> cannot decode: its type tag has a constructor, and the
  stored payload does not decode into the instance the constructor creates.
\<close>

definition decode_fails :: "('d, 'r) codec \<Rightarrow> ('d, 'r) dbEvent \<Rightarrow> bool" where
  "decode_fails c r =
     (case CreateEventData c (EventType r) of
        None \<Rightarrow> False
      | Some d0 \<Rightarrow> UnmarshalMap c (RawData r) d0 = None)"

text \<open>
  \<open>r'\<close> is the record \<open>r\<close> as \<open>buildEvents\<close> returns it: unchanged, the stored
  payload still in \<open>RawData\<close>, when the type tag of \<open>r\<close> has no constructor; with the
  decoded payload in \<open>data\<close> and \<open>RawData\<close> zeroed when it has one.
\<close>

definition decoded :: "('d, 'r) codec \<Rightarrow> ('d, 'r) dbEvent \<Rightarrow> ('d, 'r) dbEvent \<Rightarrow> bool" where
  "decoded c r r' =
     (case CreateEventData c (EventType r) of
        None \<Rightarrow> r' = r
      | Some d0 \<Rightarrow>
          (case UnmarshalMap c (RawData r) d0 of
             None \<Rightarrow> False
           | Some d \<Rightarrow> r' = r\<lparr>data := Some d, RawData := None\<rparr>))"

section \<open>A concrete codec, events and stores\<close>

text \<open>
  A codec over numbers: only the type tag \<open>Created\<close> has a constructor, payloads
  from 100 on cannot be encoded, an encoded payload is the payload plus 100, and a
  stored value below 100 cannot be decoded.
\<close>

definition codec0 :: "(nat, nat) codec" where
  "codec0 = \<lparr>CreateEventData = (\<lambda>t. if t = ''Created'' then Some 0 else None),
     MarshalMap = (\<lambda>d. if d < 100 then Some (d + 100) else None),
     UnmarshalMap = (\<lambda>raw d0. case raw of None \<Rightarrow> Some d0
                       | Some r \<Rightarrow> if 100 \<le> r then Some (r - 100) else None)\<rparr>"

text \<open>The same codec with a decoder that rejects every stored payload.\<close>

definition codec1 :: "(nat, nat) codec" where
  "codec1 = \<lparr>CreateEventData = (\<lambda>t. if t = ''Created'' then Some 0 else None),
     MarshalMap = (\<lambda>d. if d < 100 then Some (d + 100) else None),
     UnmarshalMap = (\<lambda>raw d0. None)\<rparr>"

definition evA1 :: "nat Event" where
  "evA1 = \<lparr>evEventType = ''Created'', evData = Some 7, evTimestamp = 1000,
     evAggregateType = ''Account'', evAggregateID = 1, evVersion = 1, evMetadata = []\<rparr>"

definition evA2 :: "nat Event" where
  "evA2 = \<lparr>evEventType = ''Closed'', evData = None, evTimestamp = 2000,
     evAggregateType = ''Account'', evAggregateID = 1, evVersion = 2, evMetadata = []\<rparr>"

definition evB2 :: "nat Event" where
  "evB2 = \<lparr>evEventType = ''Created'', evData = Some 9, evTimestamp = 3000,
     evAggregateType = ''Account'', evAggregateID = 2, evVersion = 2, evMetadata = []\<rparr>"

definition evB5 :: "nat Event" where
  "evB5 = \<lparr>evEventType = ''Created'', evData = Some 9, evTimestamp = 3000,
     evAggregateType = ''Account'', evAggregateID = 2, evVersion = 5, evMetadata = []\<rparr>"

definition evA5 :: "nat Event" where
  "evA5 = \<lparr>evEventType = ''Created'', evData = Some 9, evTimestamp = 3000,
     evAggregateType = ''Account'', evAggregateID = 1, evVersion = 5, evMetadata = []\<rparr>"

text \<open>The records that \<open>newDBEvent\<close> builds for them.\<close>

definition recA1 :: "(nat, nat) dbEvent" where
  "recA1 = \<lparr>AggregateID = 1, Version = 1, EventType = ''Created'', RawData = Some 107,
     data = None, Timestamp = 1000, AggregateType = ''Account'', Metadata = []\<rparr>"

definition recA2 :: "(nat, nat) dbEvent" where
  "recA2 = \<lparr>AggregateID = 1, Version = 2, EventType = ''Closed'', RawData = None,
     data = None, Timestamp = 2000, AggregateType = ''Account'', Metadata = []\<rparr>"

text \<open>A record whose stored payload does not decode, and an event that replaces \<open>recA2\<close>.\<close>

definition recA3 :: "(nat, nat) dbEvent" where
  "recA3 = \<lparr>AggregateID = 1, Version = 3, EventType = ''Created'', RawData = Some 5,
     data = None, Timestamp = 4000, AggregateType = ''Account'', Metadata = []\<rparr>"

definition evA2r :: "nat Event" where
  "evA2r = \<lparr>evEventType = ''Created'', evData = Some 8, evTimestamp = 2500,
     evAggregateType = ''Ledger'', evAggregateID = 1, evVersion = 2,
     evMetadata = [(''fixed'', ''yes'')]\<rparr>"

definition recA2r :: "(nat, nat) dbEvent" where
  "recA2r = \<lparr>AggregateID = 1, Version = 2, EventType = ''Created'', RawData = Some 108,
     data = None, Timestamp = 2500, AggregateType = ''Ledger'',
     Metadata = [(''fixed'', ''yes'')]\<rparr>"

text \<open>
  An event without payload whose type tag has a constructor, an event with a payload
  whose type tag has none, and their records.
\<close>

definition evA1nil :: "nat Event" where
  "evA1nil = \<lparr>evEventType = ''Created'', evData = None, evTimestamp = 1000,
     evAggregateType = ''Account'', evAggregateID = 1, evVersion = 1, evMetadata = []\<rparr>"

definition recA1nil :: "(nat, nat) dbEvent" where
  "recA1nil = \<lparr>AggregateID = 1, Version = 1, EventType = ''Created'', RawData = None,
     data = None, Timestamp = 1000, AggregateType = ''Account'', Metadata = []\<rparr>"

definition evA2pay :: "nat Event" where
  "evA2pay = \<lparr>evEventType = ''Closed'', evData = Some 4, evTimestamp = 2000,
     evAggregateType = ''Account'', evAggregateID = 1, evVersion = 2, evMetadata = []\<rparr>"

definition recA2pay :: "(nat, nat) dbEvent" where
  "recA2pay = \<lparr>AggregateID = 1, Version = 2, EventType = ''Closed'', RawData = Some 104,
     data = None, Timestamp = 2000, AggregateType = ''Account'', Metadata = []\<rparr>"

text \<open>A record of another aggregate with the type tag of \<open>recA1\<close>.\<close>

definition recC1 :: "(nat, nat) dbEvent" where
  "recC1 = \<lparr>AggregateID = 3, Version = 1, EventType = ''Created'', RawData = Some 101,
     data = None, Timestamp = 5000, AggregateType = ''Account'', Metadata = []\<rparr>"

definition store_of ::
  "(nat, nat) dbEvent list \<Rightarrow> aws_error option list \<Rightarrow> nat \<Rightarrow> (nat, nat) store" where
  "store_of items fs n = \<lparr>table = Some items, faults = fs, requests = n\<rparr>"

section \<open>The loop of Save\<close>

lemma issue_cases:
  "issue s = (f, s') \<Longrightarrow>
     table s' = table s \<and> requests s' = Suc (requests s) \<and> faults s' = tl (faults s)"
  by (auto simp: issue_def split: list.splits)

lemma issue_served:
  "served s \<Longrightarrow> issue s = (None, s\<lparr>faults := tl (faults s), requests := Suc (requests s)\<rparr>)"
  by (auto simp: served_def issue_def split: list.splits)


lemma Put_If_not_exists_None:
  "Put_If_not_exists e s = (None, s') \<Longrightarrow>
     \<exists>items. table s = Some items \<and> key e \<notin> set (map key items)
       \<and> table s' = Some (items @ [item e])
       \<and> requests s' = Suc (requests s) \<and> faults s' = tl (faults s)"
  by (auto simp: Put_If_not_exists_def dest!: issue_cases
      split: prod.splits option.splits if_splits)

lemma Put_If_not_exists_Some:
  "Put_If_not_exists e s = (Some f, s') \<Longrightarrow>
     table s' = table s \<and> requests s' = Suc (requests s) \<and> faults s' = tl (faults s)"
  by (auto simp: Put_If_not_exists_def dest!: issue_cases
      split: prod.splits option.splits if_splits)

text \<open>
  What a run of the loop that ends without an error has done: every event passed both
  checks and was encoded, and the records were added to the table in order, one request
  for each.
\<close>

lemma Save_loop_None:
  "Save_loop c e0 events ov v xs s = (None, s') \<Longrightarrow>
     (\<exists>recs. map (newDBEvent c) xs = map Inr recs
        \<and> table s' = map_option (\<lambda>items. items @ map item recs) (table s))
     \<and> requests s' = requests s + length xs
     \<and> faults s' = drop (length xs) (faults s)
     \<and> (\<forall>i<length xs. evAggregateID (xs ! i) = evAggregateID e0
            \<and> evVersion (xs ! i) = v + of_nat (Suc i))
     \<and> (xs \<noteq> [] \<longrightarrow> table s \<noteq> None)"
proof (induction xs arbitrary: v s)
  case Nil
  then show ?case by (cases "table s") auto
next
  case (Cons x xs)
  from Cons.prems obtain e s1 where
    a: "evAggregateID x = evAggregateID e0" and b: "evVersion x = v + 1"
    and n: "newDBEvent c x = Inr e" and p: "Put_If_not_exists e s = (None, s1)"
    and r: "Save_loop c e0 events ov (v + 1) xs s1 = (None, s')"
    by (auto split: if_splits sum.splits prod.splits option.splits aws_error.splits)
  from Put_If_not_exists_None[OF p] obtain items where
    t: "table s = Some items" "table s1 = Some (items @ [item e])"
    "requests s1 = Suc (requests s)" "faults s1 = tl (faults s)" by blast
  from Cons.IH[OF r] obtain recs where
    i: "map (newDBEvent c) xs = map Inr recs"
      "table s' = map_option (\<lambda>items. items @ map item recs) (table s1)"
      "requests s' = requests s1 + length xs"
      "faults s' = drop (length xs) (faults s1)"
      "\<forall>i<length xs. evAggregateID (xs ! i) = evAggregateID e0
            \<and> evVersion (xs ! i) = v + 1 + of_nat (Suc i)" by blast
  have "map (newDBEvent c) (x # xs) = map Inr (e # recs)" using n i(1) by simp
  moreover have "table s' = map_option (\<lambda>items. items @ map item (e # recs)) (table s)"
    using t i(2) by simp
  moreover have "requests s' = requests s + length (x # xs)" using t i(3) by simp
  moreover have "faults s' = drop (length (x # xs)) (faults s)" using t i(4)
    by (simp add: drop_Suc)
  moreover have "\<forall>i<length (x # xs). evAggregateID ((x # xs) ! i) = evAggregateID e0
            \<and> evVersion ((x # xs) ! i) = v + of_nat (Suc i)"
  proof (intro allI impI)
    fix i assume "i < length (x # xs)"
    then show "evAggregateID ((x # xs) ! i) = evAggregateID e0
            \<and> evVersion ((x # xs) ! i) = v + of_nat (Suc i)"
      using a b i(5) by (cases i) (auto simp: algebra_simps)
  qed
  ultimately show ?case using t(1) by blast
qed

text \<open>The loop over a batch split in two: the second part runs only after the first.\<close>

lemma Save_loop_append:
  "Save_loop c e0 events ov v (xs @ ys) s =
     (case Save_loop c e0 events ov v xs s of
        (None, s') \<Rightarrow> Save_loop c e0 events ov (v + of_nat (length xs)) ys s'
      | (Some e, s') \<Rightarrow> (Some e, s'))"
proof (induction xs arbitrary: v s)
  case Nil
  then show ?case by simp
next
  case (Cons x xs)
  have "v + 1 + of_nat (length xs) = v + of_nat (length (x # xs))" by (simp add: algebra_simps)
  then show ?case using Cons.IH
    by (simp add: add.assoc split: sum.splits prod.splits option.splits aws_error.splits)
qed

section \<open>Records, decoding and the range read\<close>

lemma newDBEvent_Inr:
  "newDBEvent c ev = Inr e \<Longrightarrow>
     AggregateID e = evAggregateID ev \<and> Version e = evVersion ev
     \<and> EventType e = evEventType ev \<and> Timestamp e = evTimestamp ev
     \<and> AggregateType e = evAggregateType ev \<and> Metadata e = evMetadata ev
     \<and> data e = None
     \<and> RawData e = (case evData ev of None \<Rightarrow> None | Some d \<Rightarrow> MarshalMap c d)
     \<and> (\<forall>d. evData ev = Some d \<longrightarrow> MarshalMap c d \<noteq> None)"
  by (auto simp: newDBEvent_def split: option.splits sum.splits)

lemma item_newDBEvent: "newDBEvent c ev = Inr e \<Longrightarrow> item e = e"
  by (auto simp: newDBEvent_def item_def split: option.splits sum.splits)

lemma sint_of_nat_small: "n < 2 ^ 63 \<Longrightarrow> sint (of_nat n :: 64 word) = int n"
  by (simp add: signed_of_nat signed_take_bit_int_eq_self)

lemma of_nat_word_neq:
  assumes "i < j" and "j < 2 ^ 63"
  shows "v + (of_nat i :: 64 word) \<noteq> v + of_nat j"
proof
  assume "v + (of_nat i :: 64 word) = v + of_nat j"
  then have "(of_nat i :: 64 word) = of_nat j" by simp
  then have "sint (of_nat i :: 64 word) = sint (of_nat j :: 64 word)" by simp
  moreover have "sint (of_nat i :: 64 word) = int i"
    using assms by (intro sint_of_nat_small) simp
  moreover have "sint (of_nat j :: 64 word) = int j"
    using assms by (intro sint_of_nat_small)
  ultimately show False using assms(1) by simp
qed

lemma sorted_versions:
  assumes "\<forall>i<length recs. Version (recs ! i) = of_nat (m + Suc i)"
    and "m + length recs < 2 ^ 63"
  shows "map (\<lambda>r. sint (Version r)) recs = map int [Suc m..<Suc (m + length recs)]"
proof (rule nth_equalityI)
  show "length (map (\<lambda>r. sint (Version r)) recs) = length (map int [Suc m..<Suc (m + length recs)])"
    by (simp del: upt_Suc)
next
  fix i assume "i < length (map (\<lambda>r. sint (Version r)) recs)"
  then have i: "i < length recs" by simp
  then have "m + Suc i < 2 ^ 63" using assms(2) by simp
  then have "sint (of_nat (m + Suc i) :: 64 word) = int (m + Suc i)"
    by (rule sint_of_nat_small)
  then show "map (\<lambda>r. sint (Version r)) recs ! i = map int [Suc m..<Suc (m + length recs)] ! i"
    using i assms(1) by (simp del: upt_Suc)
qed

lemma map_newDBEvent_Inr:
  assumes "map (newDBEvent c) evs = map Inr recs"
  shows "length recs = length evs" and "map item recs = recs"
    and "\<And>i. i < length evs \<Longrightarrow> newDBEvent c (evs ! i) = Inr (recs ! i)"
proof -
  show l: "length recs = length evs" using assms by (metis length_map)
  show n: "\<And>i. i < length evs \<Longrightarrow> newDBEvent c (evs ! i) = Inr (recs ! i)"
  proof -
    fix i assume i: "i < length evs"
    then have "map (newDBEvent c) evs ! i = map Inr recs ! i" using assms by simp
    then show "newDBEvent c (evs ! i) = Inr (recs ! i)" using i l by simp
  qed
  show "map item recs = recs"
    by (rule nth_equalityI) (auto simp: l dest: n item_newDBEvent)
qed

lemma Get_All_served:
  "served s \<Longrightarrow> table s = Some items \<Longrightarrow>
     fst (Get_All aid s) =
       (sort_key (\<lambda>r. sint (Version r)) (map item (filter (\<lambda>r. AggregateID r = aid) items)), None)"
  by (auto simp: Get_All_def served_def dest: issue_cases split: prod.splits option.splits)

lemma Load_served:
  "served s \<Longrightarrow> table s = Some items \<Longrightarrow>
     fst (Load c aid s) =
       buildEvents c (sort_key (\<lambda>r. sint (Version r))
          (map item (filter (\<lambda>r. AggregateID r = aid) items)))"
  using Get_All_served[of s items aid]
  by (auto simp: Load_def split: prod.splits option.splits aws_error.splits)

section \<open>Claim C1: a saved batch of a fresh aggregate is loaded back\<close>

lemma buildEvents_saved:
  "map (newDBEvent c) evs = map Inr recs \<Longrightarrow>
     (if \<exists>ev\<in>set evs. reload_fails c ev
      then buildEvents c recs =
             Inl (StoreError \<lparr>Err = ErrCouldNotUnmarshalEvent, Op = EventStoreOpLoad,
                    errAggregateType = [], errAggregateID = 0, AggregateVersion = 0,
                    Events = []\<rparr>)
      else \<exists>loaded. buildEvents c recs = Inr loaded
             \<and> list_all2 (\<lambda>ev r. event r = ev\<lparr>evData := reloaded c ev\<rparr>) evs loaded)"
proof (induction evs arbitrary: recs)
  case Nil
  then show ?case by simp
next
  case (Cons ev evs)
  from Cons.prems(1) obtain r rs where r: "recs = r # rs" "newDBEvent c ev = Inr r"
    "map (newDBEvent c) evs = map Inr rs" by (cases recs) auto
  note IH = Cons.IH[OF r(3)]
  note f = newDBEvent_Inr[OF r(2)]
  have raw: "RawData r = stored_payload c ev" using f by (simp add: stored_payload_def)
  have ty: "EventType r = evEventType ev" using f by simp
  have ev_r: "event r = ev\<lparr>evData := None\<rparr>" using f by (simp add: event_def)
  show ?case
  proof (cases "CreateEventData c (evEventType ev)")
    case None
    then have nf: "\<not> reload_fails c ev" "reloaded c ev = None"
      by (simp_all add: reload_fails_def reloaded_def)
    show ?thesis using IH None nf ev_r
      by (cases "\<exists>x\<in>set evs. reload_fails c x")
        (auto simp: r(1) ty EventStoreError0_def split: sum.splits)
  next
    case (Some d0)
    show ?thesis
    proof (cases "UnmarshalMap c (stored_payload c ev) d0")
      case None
      with Some have "reload_fails c ev" by (simp add: reload_fails_def)
      then show ?thesis using Some None
        by (simp add: r(1) ty raw EventStoreError0_def)
    next
      case (Some d)
      with \<open>CreateEventData c (evEventType ev) = Some d0\<close>
      have nf: "\<not> reload_fails c ev" "reloaded c ev = Some d"
        by (simp_all add: reload_fails_def reloaded_def)
      have "event (r\<lparr>data := Some d, RawData := None\<rparr>) = ev\<lparr>evData := Some d\<rparr>"
        using f by (simp add: event_def)
      then show ?thesis using IH Some nf \<open>CreateEventData c (evEventType ev) = Some d0\<close>
        by (cases "\<exists>x\<in>set evs. reload_fails c x")
          (auto simp: r(1) ty raw EventStoreError0_def split: sum.splits)
    qed
  qed
qed

lemma roundtrips_reloaded:
  "roundtrips c ev \<Longrightarrow> \<not> reload_fails c ev \<and> reloaded c ev = evData ev"
  by (auto simp: roundtrips_def reload_fails_def reloaded_def stored_payload_def
      split: option.splits)

text \<open>
  Claim C1 says that after a successful \<open>Save\<close> of versions 1..n for a fresh aggregate
  \<open>Load\<close> returns n events, each with the payload that was appended. An event is
  appended without payload under a type tag that has a registered constructor:
  \<open>newDBEvent\<close> stores no \<open>RawData\<close>, \<open>Save\<close> succeeds, and \<open>buildEvents\<close> creates
  an instance of the registered type, decodes the absent payload into it and returns
  the event with that instance as its payload, not with the nil that was appended.
\<close>

theorem C1_counterexample:
  "map evVersion [evA1nil] = [1]
   \<and> Save codec0 [evA1nil] 0 (store_of [] [] 0) = (None, store_of [recA1nil] [] 1)
   \<and> fst (Load codec0 (evAggregateID evA1nil) (store_of [recA1nil] [] 1)) =
       Inr [recA1nil\<lparr>data := Some 0, RawData := None\<rparr>]
   \<and> evData (event (recA1nil\<lparr>data := Some 0, RawData := None\<rparr>)) = Some 0
   \<and> evData evA1nil = None"
  by (simp add: codec0_def evA1nil_def recA1nil_def store_of_def Save_def newDBEvent_def
      Put_If_not_exists_def issue_def key_def item_def SaveError_def EventStoreError0_def
      Load_def Get_All_def event_def)

text \<open>
  Claim C1 as amended. A batch is saved with \<open>originalVersion = 0\<close> for an aggregate
  that has no record in the table, \<open>Save\<close> returns no error, and the read of \<open>Load\<close>
  for that aggregate is served (the batch has fewer than \<open>2^63\<close> events, as every Go
  slice has; that it carries the versions 1..n need not be assumed, a \<open>Save\<close> that
  succeeds has checked it). Then \<open>Load\<close> fails with \<open>ErrCouldNotUnmarshalEvent\<close>
  exactly when the stored payload of some event whose type tag has a constructor does
  not decode. Otherwise it returns as many events as the batch has, in the order of
  the batch, with the versions 1, 2, ..., n, and the payload of each loaded event is
  \<open>reloaded\<close>: nil when the type tag has no constructor, else the stored payload
  (absent for an event appended without one) decoded into a fresh instance. So an event
  that \<open>roundtrips\<close> is loaded with the payload that was appended; an event appended
  without payload under a registered type is loaded with a payload that is not nil;
  an event appended with a payload under an unregistered type is loaded with nil. The
  second part is the claim itself for a batch all of whose events round-trip.
\<close>

theorem C1_Save_then_Load:
  assumes tab: "table s = Some items"
    and fresh: "\<forall>r\<in>set items. AggregateID r \<noteq> evAggregateID e0"
    and ev: "events = e0 # rest"
    and len: "length events < 2 ^ 63"
    and save: "Save c events 0 s = (None, s')"
    and srv: "served s'"
  shows "(if \<exists>ev\<in>set events. reload_fails c ev
          then fst (Load c (evAggregateID e0) s') =
                 Inl (StoreError \<lparr>Err = ErrCouldNotUnmarshalEvent, Op = EventStoreOpLoad,
                        errAggregateType = [], errAggregateID = 0, AggregateVersion = 0,
                        Events = []\<rparr>)
          else \<exists>loaded. fst (Load c (evAggregateID e0) s') = Inr loaded
             \<and> length loaded = length events
             \<and> map Version loaded = map of_nat [1..<Suc (length events)]
             \<and> map (\<lambda>e. evData (event e)) loaded = map (reloaded c) events
             \<and> (\<forall>i<length events. roundtrips c (events ! i) \<longrightarrow>
                   evData (event (loaded ! i)) = evData (events ! i))
             \<and> (\<forall>i<length events. evData (events ! i) = None
                     \<and> CreateEventData c (evEventType (events ! i)) \<noteq> None \<longrightarrow>
                   evData (event (loaded ! i)) \<noteq> None)
             \<and> (\<forall>i<length events. evData (events ! i) \<noteq> None
                     \<and> CreateEventData c (evEventType (events ! i)) = None \<longrightarrow>
                   evData (event (loaded ! i)) = None))
    \<and> ((\<forall>ev\<in>set events. roundtrips c ev) \<longrightarrow>
         (\<exists>loaded. fst (Load c (evAggregateID e0) s') = Inr loaded
            \<and> length loaded = length events
            \<and> map Version loaded = map of_nat [1..<Suc (length events)]
            \<and> map (\<lambda>e. evData (event e)) loaded = map evData events))"
proof -
  let ?a = "evAggregateID e0"
  let ?f = "\<lambda>r::('a, 'b) dbEvent. sint (Version r)"
  let ?E = "Inl (StoreError \<lparr>Err = ErrCouldNotUnmarshalEvent, Op = EventStoreOpLoad,
                        errAggregateType = [], errAggregateID = 0, AggregateVersion = 0,
                        Events = []\<rparr>) :: 'a error + ('a, 'b) dbEvent list"
  from save ev have "Save_loop c e0 events 0 0 events s = (None, s')"
    by (simp add: Save_def)
  from Save_loop_None[OF this] tab obtain recs where
    recs: "map (newDBEvent c) events = map Inr recs"
    and tab': "table s' = Some (items @ map item recs)"
    and chk: "\<forall>i<length events. evAggregateID (events ! i) = ?a
                \<and> evVersion (events ! i) = 0 + of_nat (Suc i)"
    by auto
  note r = map_newDBEvent_Inr[OF recs]
  have fld: "AggregateID (recs ! i) = ?a \<and> Version (recs ! i) = of_nat (0 + Suc i)"
    if "i < length recs" for i
    using that r(1) r(3)[of i] chk by (auto dest!: newDBEvent_Inr)
  have "\<forall>x\<in>set recs. AggregateID x = ?a"
    using fld by (auto simp: in_set_conv_nth)
  then have flt: "filter (\<lambda>r. AggregateID r = ?a) (items @ recs) = recs"
    using fresh by (simp add: filter_empty_conv)
  have "map ?f recs = map int [Suc 0..<Suc (0 + length recs)]"
    by (rule sorted_versions) (use fld len r(1) in auto)
  then have "sorted (map ?f recs)"
    by (simp add: sorted_iff_nth_mono del: upt_Suc)
  then have srt: "sort_key ?f recs = recs" by (rule sort_key_id_if_sorted)
  have m: "map item (filter (\<lambda>r. AggregateID r = ?a) (items @ map item recs)) = recs"
    unfolding r(2) flt by (rule refl)
  have L: "fst (Load c ?a s') = buildEvents c recs"
    by (simp only: Load_served[OF srv tab', of c ?a] m srt)
  note B = buildEvents_saved[OF recs]
  have good: "\<exists>loaded. fst (Load c ?a s') = Inr loaded
             \<and> length loaded = length events
             \<and> map Version loaded = map of_nat [1..<Suc (length events)]
             \<and> map (\<lambda>e. evData (event e)) loaded = map (reloaded c) events
             \<and> (\<forall>i<length events. roundtrips c (events ! i) \<longrightarrow>
                   evData (event (loaded ! i)) = evData (events ! i))
             \<and> (\<forall>i<length events. evData (events ! i) = None
                     \<and> CreateEventData c (evEventType (events ! i)) \<noteq> None \<longrightarrow>
                   evData (event (loaded ! i)) \<noteq> None)
             \<and> (\<forall>i<length events. evData (events ! i) \<noteq> None
                     \<and> CreateEventData c (evEventType (events ! i)) = None \<longrightarrow>
                   evData (event (loaded ! i)) = None)"
    if nofail: "\<not> (\<exists>ev\<in>set events. reload_fails c ev)"
  proof -
    from B nofail obtain loaded where
      l: "buildEvents c recs = Inr loaded"
      and all: "list_all2 (\<lambda>ev r. event r = ev\<lparr>evData := reloaded c ev\<rparr>) events loaded"
      by auto
    have ll: "length loaded = length events" using all by (simp add: list_all2_lengthD)
    have E: "event (loaded ! i) = (events ! i)\<lparr>evData := reloaded c (events ! i)\<rparr>"
      if "i < length events" for i
      using list_all2_nthD[OF all that] .
    have V: "map Version loaded = map of_nat [1..<Suc (length events)]"
    proof (rule nth_equalityI)
      show "length (map Version loaded)
          = length (map of_nat [1..<Suc (length events)] :: GoInt list)"
        using ll by (simp del: upt_Suc)
    next
      fix i assume "i < length (map Version loaded)"
      then have i: "i < length events" using ll by simp
      have "evVersion (event (loaded ! i)) = evVersion (events ! i)" using E[OF i] by simp
      then have "Version (loaded ! i) = evVersion (events ! i)" by (simp add: event_def)
      then show "map Version loaded ! i = map of_nat [1..<Suc (length events)] ! i"
        using i ll chk by (simp del: upt_Suc)
    qed
    have P: "map (\<lambda>e. evData (event e)) loaded = map (reloaded c) events"
      by (rule nth_equalityI) (use ll E in auto)
    have R: "evData (event (loaded ! i)) = evData (events ! i)"
      if "i < length events" "roundtrips c (events ! i)" for i
      using E[OF that(1)] roundtrips_reloaded[OF that(2)] by simp
    have nf: "\<not> reload_fails c (events ! i)" if "i < length events" for i
      using nofail nth_mem[OF that] by blast
    have S: "evData (event (loaded ! i)) \<noteq> None"
      if "i < length events" "evData (events ! i) = None
            \<and> CreateEventData c (evEventType (events ! i)) \<noteq> None" for i
      using E[OF that(1)] nf[OF that(1)] that(2)
      by (auto simp: reload_fails_def reloaded_def)
    have T: "evData (event (loaded ! i)) = None"
      if "i < length events" "evData (events ! i) \<noteq> None
            \<and> CreateEventData c (evEventType (events ! i)) = None" for i
      using E[OF that(1)] that(2) by (simp add: reloaded_def)
    show ?thesis using L l ll V P R S T by auto
  qed
  have rtp: "\<exists>loaded. fst (Load c ?a s') = Inr loaded
            \<and> length loaded = length events
            \<and> map Version loaded = map of_nat [1..<Suc (length events)]
            \<and> map (\<lambda>e. evData (event e)) loaded = map evData events"
    if rt: "\<forall>ev\<in>set events. roundtrips c ev"
  proof -
    have "\<not> (\<exists>ev\<in>set events. reload_fails c ev)"
      using rt roundtrips_reloaded by blast
    from good[OF this] obtain loaded where
      g: "fst (Load c ?a s') = Inr loaded" "length loaded = length events"
      "map Version loaded = map of_nat [1..<Suc (length events)]"
      "\<forall>i<length events. roundtrips c (events ! i) \<longrightarrow>
          evData (event (loaded ! i)) = evData (events ! i)"
      by blast
    have "map (\<lambda>e. evData (event e)) loaded = map evData events"
      by (rule nth_equalityI) (use g(2,4) rt in auto)
    with g show ?thesis by blast
  qed
  show ?thesis
  proof (rule conjI)
    show "(\<forall>ev\<in>set events. roundtrips c ev) \<longrightarrow>
         (\<exists>loaded. fst (Load c (evAggregateID e0) s') = Inr loaded
            \<and> length loaded = length events
            \<and> map Version loaded = map of_nat [1..<Suc (length events)]
            \<and> map (\<lambda>e. evData (event e)) loaded = map evData events)"
      using rtp by (rule impI)
  next
    show "if \<exists>ev\<in>set events. reload_fails c ev
          then fst (Load c (evAggregateID e0) s') =
                 Inl (StoreError \<lparr>Err = ErrCouldNotUnmarshalEvent, Op = EventStoreOpLoad,
                        errAggregateType = [], errAggregateID = 0, AggregateVersion = 0,
                        Events = []\<rparr>)
          else \<exists>loaded. fst (Load c (evAggregateID e0) s') = Inr loaded
             \<and> length loaded = length events
             \<and> map Version loaded = map of_nat [1..<Suc (length events)]
             \<and> map (\<lambda>e. evData (event e)) loaded = map (reloaded c) events
             \<and> (\<forall>i<length events. roundtrips c (events ! i) \<longrightarrow>
                   evData (event (loaded ! i)) = evData (events ! i))
             \<and> (\<forall>i<length events. evData (events ! i) = None
                     \<and> CreateEventData c (evEventType (events ! i)) \<noteq> None \<longrightarrow>
                   evData (event (loaded ! i)) \<noteq> None)
             \<and> (\<forall>i<length events. evData (events ! i) \<noteq> None
                     \<and> CreateEventData c (evEventType (events ! i)) = None \<longrightarrow>
                   evData (event (loaded ! i)) = None)"
    proof (cases "\<exists>ev\<in>set events. reload_fails c ev")
      case True
      with B L have "fst (Load c ?a s') = ?E" by simp
      with True show ?thesis by simp
    next
      case False
      from good[OF False] False show ?thesis by simp
    qed
  qed
qed

theorem C1_Save_then_Load_witness:
  "Save codec0 [evA1, evA2] 0 (store_of [] [] 0) = (None, store_of [recA1, recA2] [] 2)
   \<and> served (store_of [recA1, recA2] [] 2)
   \<and> roundtrips codec0 evA1 \<and> roundtrips codec0 evA2
   \<and> (\<exists>loaded. fst (Load codec0 (evAggregateID evA1) (store_of [recA1, recA2] [] 2)) = Inr loaded
         \<and> length loaded = length [evA1, evA2]
         \<and> map Version loaded = map of_nat [1..<Suc (length [evA1, evA2])]
         \<and> map (\<lambda>e. evData (event e)) loaded = map evData [evA1, evA2])
   \<and> Save codec0 [evA1nil, evA2pay] 0 (store_of [] [] 0)
        = (None, store_of [recA1nil, recA2pay] [] 2)
   \<and> \<not> reload_fails codec0 evA1nil \<and> \<not> reload_fails codec0 evA2pay
   \<and> map (reloaded codec0) [evA1nil, evA2pay] = [Some 0, None]
   \<and> (\<exists>loaded. fst (Load codec0 (evAggregateID evA1nil) (store_of [recA1nil, recA2pay] [] 2))
           = Inr loaded
         \<and> length loaded = length [evA1nil, evA2pay]
         \<and> map Version loaded = map of_nat [1..<Suc (length [evA1nil, evA2pay])]
         \<and> map (\<lambda>e. evData (event e)) loaded = [Some 0, None])
   \<and> Save codec1 [evA1] 0 (store_of [] [] 0) = (None, store_of [recA1] [] 1)
   \<and> reload_fails codec1 evA1
   \<and> fst (Load codec1 (evAggregateID evA1) (store_of [recA1] [] 1)) =
        Inl (StoreError \<lparr>Err = ErrCouldNotUnmarshalEvent, Op = EventStoreOpLoad,
               errAggregateType = [], errAggregateID = 0, AggregateVersion = 0,
               Events = []\<rparr>)"
proof -
  have t: "table (store_of [] [] 0) = Some []" by (simp add: store_of_def)
  have a2: "\<forall>r\<in>set ([] :: (nat, nat) dbEvent list). AggregateID r \<noteq> evAggregateID evA1"
    by simp
  have a3: "[evA1, evA2] = evA1 # [evA2]" by simp
  have a4: "length [evA1, evA2] < 2 ^ 63" by simp
  have a5: "\<forall>ev\<in>set [evA1, evA2]. roundtrips codec0 ev"
    by (simp add: codec0_def evA1_def evA2_def roundtrips_def)
  have a6: "Save codec0 [evA1, evA2] 0 (store_of [] [] 0) = (None, store_of [recA1, recA2] [] 2)"
    by (simp add: codec0_def evA1_def evA2_def recA1_def recA2_def store_of_def Save_def
        newDBEvent_def Put_If_not_exists_def issue_def key_def item_def SaveError_def
        EventStoreError0_def)
  have a7: "served (store_of [recA1, recA2] [] 2)"
    by (simp add: store_of_def served_def issue_def)
  from C1_Save_then_Load[OF t a2 a3 a4 a6 a7] a5
  have A: "\<exists>loaded. fst (Load codec0 (evAggregateID evA1) (store_of [recA1, recA2] [] 2)) = Inr loaded
         \<and> length loaded = length [evA1, evA2]
         \<and> map Version loaded = map of_nat [1..<Suc (length [evA1, evA2])]
         \<and> map (\<lambda>e. evData (event e)) loaded = map evData [evA1, evA2]"
    by blast
  have b2: "\<forall>r\<in>set ([] :: (nat, nat) dbEvent list). AggregateID r \<noteq> evAggregateID evA1nil"
    by simp
  have b3: "[evA1nil, evA2pay] = evA1nil # [evA2pay]" by simp
  have b4: "length [evA1nil, evA2pay] < 2 ^ 63" by simp
  have b5: "\<not> (\<exists>ev\<in>set [evA1nil, evA2pay]. reload_fails codec0 ev)"
    by (simp add: codec0_def evA1nil_def evA2pay_def reload_fails_def stored_payload_def)
  have b5': "map (reloaded codec0) [evA1nil, evA2pay] = [Some 0, None]"
    by (simp add: codec0_def evA1nil_def evA2pay_def reloaded_def stored_payload_def)
  have b6: "Save codec0 [evA1nil, evA2pay] 0 (store_of [] [] 0)
        = (None, store_of [recA1nil, recA2pay] [] 2)"
    by (simp add: codec0_def evA1nil_def evA2pay_def recA1nil_def recA2pay_def store_of_def
        Save_def newDBEvent_def Put_If_not_exists_def issue_def key_def item_def
        SaveError_def EventStoreError0_def)
  have b7: "served (store_of [recA1nil, recA2pay] [] 2)"
    by (simp add: store_of_def served_def issue_def)
  from C1_Save_then_Load[OF t b2 b3 b4 b6 b7, THEN conjunct1] b5
  have "\<exists>loaded. fst (Load codec0 (evAggregateID evA1nil) (store_of [recA1nil, recA2pay] [] 2))
           = Inr loaded
         \<and> length loaded = length [evA1nil, evA2pay]
         \<and> map Version loaded = map of_nat [1..<Suc (length [evA1nil, evA2pay])]
         \<and> map (\<lambda>e. evData (event e)) loaded = map (reloaded codec0) [evA1nil, evA2pay]"
    by (simp only: if_False) blast
  then have B: "\<exists>loaded. fst (Load codec0 (evAggregateID evA1nil) (store_of [recA1nil, recA2pay] [] 2))
           = Inr loaded
         \<and> length loaded = length [evA1nil, evA2pay]
         \<and> map Version loaded = map of_nat [1..<Suc (length [evA1nil, evA2pay])]
         \<and> map (\<lambda>e. evData (event e)) loaded = [Some 0, None]"
    unfolding b5' .
  have c3: "[evA1] = evA1 # []" by simp
  have c4: "length [evA1] < 2 ^ 63" by simp
  have c5: "\<exists>ev\<in>set [evA1]. reload_fails codec1 ev"
    by (simp add: codec1_def evA1_def reload_fails_def stored_payload_def)
  have c6: "Save codec1 [evA1] 0 (store_of [] [] 0) = (None, store_of [recA1] [] 1)"
    by (simp add: codec1_def evA1_def recA1_def store_of_def Save_def newDBEvent_def
        Put_If_not_exists_def issue_def key_def item_def SaveError_def EventStoreError0_def)
  have c7: "served (store_of [recA1] [] 1)"
    by (simp add: store_of_def served_def issue_def)
  from C1_Save_then_Load[OF t a2 c3 c4 c6 c7, THEN conjunct1] c5
  have C: "fst (Load codec1 (evAggregateID evA1) (store_of [recA1] [] 1)) =
        Inl (StoreError \<lparr>Err = ErrCouldNotUnmarshalEvent, Op = EventStoreOpLoad,
               errAggregateType = [], errAggregateID = 0, AggregateVersion = 0,
               Events = []\<rparr>)"
    by (simp only: if_True)
  from a5 have a5': "roundtrips codec0 evA1 \<and> roundtrips codec0 evA2" by simp
  from b5 have b5'': "\<not> reload_fails codec0 evA1nil \<and> \<not> reload_fails codec0 evA2pay" by simp
  from c5 have c5': "reload_fails codec1 evA1" by simp
  from a6 a7 a5' A b6 b5'' b5' B c6 c5' C show ?thesis by blast
qed

section \<open>Where the loop of Save stops\<close>

lemma Save_reaches:
  assumes "events = e0 # rest" and "events = pre @ ev # post"
    and "Save_loop c e0 events ov ov pre s = (None, s1)"
  shows "Save c events ov s =
           Save_loop c e0 events ov (ov + of_nat (length pre)) (ev # post) s1"
proof -
  have "Save c events ov s = Save_loop c e0 events ov ov events s"
    using assms(1) by (simp add: Save_def)
  also have "\<dots> = Save_loop c e0 events ov ov (pre @ ev # post) s"
    using assms(2) by simp
  also have "\<dots> = Save_loop c e0 events ov (ov + of_nat (length pre)) (ev # post) s1"
    using assms(3) by (simp add: Save_loop_append)
  finally show ?thesis .
qed

lemma Save_loop_requests:
  "Save_loop c e0 events ov v xs s = (r, s') \<Longrightarrow> requests s' \<le> requests s + length xs"
proof (induction xs arbitrary: v s)
  case Nil
  then show ?case by simp
next
  case (Cons x xs)
  show ?case
  proof (cases "evAggregateID x \<noteq> evAggregateID e0 \<or> evVersion x \<noteq> v + 1")
    case True
    with Cons.prems show ?thesis by (auto split: if_splits)
  next
    case False
    note ok = this
    show ?thesis
    proof (cases "newDBEvent c x")
      case (Inl e)
      with ok Cons.prems show ?thesis by auto
    next
      case (Inr e)
      obtain f s1 where p: "Put_If_not_exists e s = (f, s1)" by (cases "Put_If_not_exists e s")
      show ?thesis
      proof (cases f)
        case None
        with p Inr ok Cons.prems have "Save_loop c e0 events ov (v + 1) xs s1 = (r, s')" by simp
        from Cons.IH[OF this] Put_If_not_exists_None[OF p[unfolded None]]
        show ?thesis by auto
      next
        case (Some failure)
        with p Inr ok Cons.prems have "s' = s1" by (auto split: aws_error.splits if_splits)
        with Put_If_not_exists_Some[OF p[unfolded Some]] show ?thesis by simp
      qed
    qed
  qed
qed

lemma Save_loop_stops:
  assumes "Save_loop c e0 events ov v (pre @ ev # post) s = (r, s')"
    and "evAggregateID ev \<noteq> evAggregateID e0 \<or> evVersion ev \<noteq> v + of_nat (Suc (length pre))"
  shows "r \<noteq> None \<and> requests s' \<le> requests s + length pre"
proof (cases "Save_loop c e0 events ov v pre s")
  case (Pair r1 s1)
  show ?thesis
  proof (cases r1)
    case None
    have "v + of_nat (length pre) + 1 = v + of_nat (Suc (length pre))" by simp
    with assms Pair None have "r \<noteq> None \<and> s' = s1"
      by (auto simp: Save_loop_append split: if_splits)
    moreover from Save_loop_None[OF Pair[unfolded None]]
    have "requests s1 = requests s + length pre" by simp
    ultimately show ?thesis by simp
  next
    case (Some e)
    with assms(1) Pair have "r = Some e" "s' = s1" by (auto simp: Save_loop_append)
    with Save_loop_requests[OF Pair] show ?thesis by simp
  qed
qed

section \<open>Claim C3: a batch with a foreign aggregate identity\<close>

text \<open>
  Claim C3 says that a batch in which some event's \<open>aggregate_id\<close> differs from the
  first event's fails with \<open>eh.ErrMismatchedEventAggregateIDs\<close> before any write is
  issued, the store being left unchanged. The loop of \<open>Save\<close> checks and writes event
  by event, so the events before the foreign one have been written when it is reached:
  for the batch of \<open>evA1\<close> followed by \<open>evB2\<close> on an empty table the error is the
  mismatched-aggregate error, and the record of \<open>evA1\<close> has been written by one request.
\<close>

theorem C3_counterexample:
  "evAggregateID evB2 \<noteq> evAggregateID evA1
   \<and> Save codec0 [evA1, evB2] 0 (store_of [] [] 0) =
       (Some (SaveError ErrMismatchedEventAggregateIDs evA1 [evA1, evB2] 0),
        store_of [recA1] [] 1)
   \<and> table (store_of [recA1] [] 1) \<noteq> table (store_of [] [] 0)
   \<and> requests (store_of [recA1] [] 1) \<noteq> requests (store_of [] [] 0)"
  by (simp add: codec0_def evA1_def evB2_def recA1_def store_of_def Save_def newDBEvent_def
      Put_If_not_exists_def issue_def key_def item_def SaveError_def EventStoreError0_def)

text \<open>
  Claim C3 as amended. A batch in which the event \<open>ev\<close>, coming after the events
  \<open>pre\<close>, has another \<open>aggregate_id\<close> than the first event never succeeds, and no
  request is issued for \<open>ev\<close> or a later event: at most one for each event of \<open>pre\<close>.
  When the events before \<open>ev\<close> have passed the loop, \<open>Save\<close> fails with
  \<open>eh.ErrMismatchedEventAggregateIDs\<close>; by then the records of those events (there is
  at least one, the first event) have been appended to the table, one request each,
  and they stay there.
\<close>

theorem C3_mismatched_aggregate:
  assumes ev: "events = e0 # rest" and split: "events = pre @ ev # post"
    and mis: "evAggregateID ev \<noteq> evAggregateID e0"
  shows "fst (Save c events ov s) \<noteq> None
    \<and> requests (snd (Save c events ov s)) \<le> requests s + length pre
    \<and> (\<forall>s1. Save_loop c e0 events ov ov pre s = (None, s1) \<longrightarrow>
          Save c events ov s = (Some (SaveError ErrMismatchedEventAggregateIDs e0 events ov), s1)
          \<and> requests s1 = requests s + length pre
          \<and> (\<exists>items recs. recs \<noteq> [] \<and> map (newDBEvent c) pre = map Inr recs
                \<and> table s = Some items \<and> table s1 = Some (items @ recs)))"
proof (intro conjI allI impI)
  have S: "Save c events ov s = Save_loop c e0 events ov ov (pre @ ev # post) s"
    using ev split by (simp add: Save_def)
  obtain r s' where rs: "Save_loop c e0 events ov ov (pre @ ev # post) s = (r, s')"
    by (cases "Save_loop c e0 events ov ov (pre @ ev # post) s")
  from Save_loop_stops[OF rs] mis have "r \<noteq> None \<and> requests s' \<le> requests s + length pre"
    by simp
  then show "fst (Save c events ov s) \<noteq> None"
    and "requests (snd (Save c events ov s)) \<le> requests s + length pre"
    using S rs by simp_all
next
  fix s1 assume p: "Save_loop c e0 events ov ov pre s = (None, s1)"
  from Save_reaches[OF ev split p] mis
  show "Save c events ov s = (Some (SaveError ErrMismatchedEventAggregateIDs e0 events ov), s1)"
    by simp
  from Save_loop_None[OF p] obtain recs where
    recs: "map (newDBEvent c) pre = map Inr recs"
    and t: "table s1 = map_option (\<lambda>items. items @ map item recs) (table s)"
    and rq: "requests s1 = requests s + length pre"
    and ne: "pre \<noteq> [] \<longrightarrow> table s \<noteq> None" by blast
  show "requests s1 = requests s + length pre" by (rule rq)
  have "pre \<noteq> []"
  proof
    assume "pre = []"
    with ev split have "ev = e0" by simp
    with mis show False by simp
  qed
  with ne obtain items where i: "table s = Some items" by auto
  have "recs \<noteq> []" using \<open>pre \<noteq> []\<close> map_newDBEvent_Inr(1)[OF recs] by auto
  moreover have "table s1 = Some (items @ recs)"
    using t i map_newDBEvent_Inr(2)[OF recs] by simp
  ultimately show "\<exists>items recs. recs \<noteq> [] \<and> map (newDBEvent c) pre = map Inr recs
                \<and> table s = Some items \<and> table s1 = Some (items @ recs)"
    using recs i by blast
qed

theorem C3_mismatched_aggregate_witness:
  "Save_loop codec0 evA1 [evA1, evB2] 0 0 [evA1] (store_of [] [] 0) = (None, store_of [recA1] [] 1)
   \<and> fst (Save codec0 [evA1, evB2] 0 (store_of [] [] 0)) \<noteq> None
   \<and> requests (snd (Save codec0 [evA1, evB2] 0 (store_of [] [] 0)))
        \<le> requests (store_of [] [] 0) + length [evA1]
   \<and> Save codec0 [evA1, evB2] 0 (store_of [] [] 0) =
        (Some (SaveError ErrMismatchedEventAggregateIDs evA1 [evA1, evB2] 0),
         store_of [recA1] [] 1)
   \<and> requests (store_of [recA1] [] 1) = requests (store_of [] [] 0) + length [evA1]
   \<and> (\<exists>items recs. recs \<noteq> [] \<and> map (newDBEvent codec0) [evA1] = map Inr recs
         \<and> table (store_of [] [] 0) = Some items
         \<and> table (store_of [recA1] [] 1) = Some (items @ recs))"
proof -
  have h1: "[evA1, evB2] = evA1 # [evB2]" by simp
  have h2: "[evA1, evB2] = [evA1] @ evB2 # []" by simp
  have h3: "evAggregateID evB2 \<noteq> evAggregateID evA1"
    by (simp add: codec0_def evA1_def evB2_def recA1_def store_of_def)
  have h4: "Save_loop codec0 evA1 [evA1, evB2] 0 0 [evA1] (store_of [] [] 0)
              = (None, store_of [recA1] [] 1)"
    by (simp add: codec0_def evA1_def evB2_def recA1_def store_of_def Save_def
        newDBEvent_def Put_If_not_exists_def issue_def key_def item_def SaveError_def
        EventStoreError0_def)
  from C3_mismatched_aggregate[OF h1 h2 h3, of codec0 0 "store_of [] [] 0"] h4
  show ?thesis by blast
qed

section \<open>Claim C6: an event out of sequence\<close>

text \<open>
  Claim C6 says that for every event of a batch whose version is not its expected
  sequential value the operation fails with \<open>eh.ErrIncorrectEventVersion\<close>. The loop
  checks the aggregate identity of an event before its version and stops at the first
  event that fails: \<open>evB5\<close>, second in its batch with version 5 instead of 2, belongs
  to another aggregate and the error is the mismatched-aggregate error; \<open>evA5\<close>, second
  in its batch with version 5, is never reached when the slot of the first event is
  taken, and the error is the one of the conflict.
\<close>

theorem C6_counterexample:
  "evVersion evB5 \<noteq> 0 + 2
   \<and> fst (Save codec0 [evA1, evB5] 0 (store_of [] [] 0)) =
        Some (SaveError ErrMismatchedEventAggregateIDs evA1 [evA1, evB5] 0)
   \<and> evVersion evA5 \<noteq> 0 + 2
   \<and> fst (Save codec0 [evA1, evA5] 0 (store_of [recA1] [] 0)) =
        Some (SaveError ErrCouldNotSaveAggregate evA1 [evA1, evA5] 0)"
  by (simp add: codec0_def evA1_def evB5_def evA5_def recA1_def store_of_def Save_def
      newDBEvent_def Put_If_not_exists_def issue_def key_def item_def SaveError_def
      EventStoreError0_def)

text \<open>
  Claim C6 as amended. With \<open>originalVersion\<close> the expected version, the event at
  position \<open>length pre + 1\<close> of the batch must carry the version
  \<open>originalVersion + length pre + 1\<close> (in Go's 64-bit arithmetic). A batch in which
  the event \<open>ev\<close> does not carry it never succeeds, and no request is issued for
  \<open>ev\<close> or a later event. When the events before \<open>ev\<close> have passed the loop and
  \<open>ev\<close> has the aggregate identity of the first event, \<open>Save\<close> fails with
  \<open>eh.ErrIncorrectEventVersion\<close> in the state the earlier events left: no write for
  \<open>ev\<close> has been attempted.
\<close>

theorem C6_incorrect_version:
  assumes ev: "events = e0 # rest" and split: "events = pre @ ev # post"
    and ver: "evVersion ev \<noteq> originalVersion + of_nat (Suc (length pre))"
  shows "fst (Save c events originalVersion s) \<noteq> None
    \<and> requests (snd (Save c events originalVersion s)) \<le> requests s + length pre
    \<and> (\<forall>s1. Save_loop c e0 events originalVersion originalVersion pre s = (None, s1)
            \<and> evAggregateID ev = evAggregateID e0 \<longrightarrow>
          Save c events originalVersion s =
            (Some (SaveError ErrIncorrectEventVersion e0 events originalVersion), s1)
          \<and> requests s1 = requests s + length pre)"
proof (intro conjI allI impI)
  have S: "Save c events originalVersion s =
      Save_loop c e0 events originalVersion originalVersion (pre @ ev # post) s"
    using ev split by (simp add: Save_def)
  obtain r s' where rs:
    "Save_loop c e0 events originalVersion originalVersion (pre @ ev # post) s = (r, s')"
    by (cases "Save_loop c e0 events originalVersion originalVersion (pre @ ev # post) s")
  from Save_loop_stops[OF rs] ver
  have "r \<noteq> None \<and> requests s' \<le> requests s + length pre" by simp
  then show "fst (Save c events originalVersion s) \<noteq> None"
    and "requests (snd (Save c events originalVersion s)) \<le> requests s + length pre"
    using S rs by simp_all
next
  fix s1
  assume p: "Save_loop c e0 events originalVersion originalVersion pre s = (None, s1)
    \<and> evAggregateID ev = evAggregateID e0"
  have "originalVersion + of_nat (length pre) + 1 = originalVersion + of_nat (Suc (length pre))"
    by simp
  with Save_reaches[OF ev split conjunct1[OF p]] p ver
  show "Save c events originalVersion s =
      (Some (SaveError ErrIncorrectEventVersion e0 events originalVersion), s1)"
    by simp
  from Save_loop_None[OF conjunct1[OF p]]
  show "requests s1 = requests s + length pre" by simp
qed

theorem C6_incorrect_version_witness:
  "Save_loop codec0 evA1 [evA1, evA5] 0 0 [evA1] (store_of [] [] 0) = (None, store_of [recA1] [] 1)
   \<and> evAggregateID evA5 = evAggregateID evA1
   \<and> evVersion evA5 \<noteq> 0 + of_nat (Suc (length [evA1]))
   \<and> fst (Save codec0 [evA1, evA5] 0 (store_of [] [] 0)) \<noteq> None
   \<and> requests (snd (Save codec0 [evA1, evA5] 0 (store_of [] [] 0)))
        \<le> requests (store_of [] [] 0) + length [evA1]
   \<and> Save codec0 [evA1, evA5] 0 (store_of [] [] 0) =
        (Some (SaveError ErrIncorrectEventVersion evA1 [evA1, evA5] 0), store_of [recA1] [] 1)
   \<and> requests (store_of [recA1] [] 1) = requests (store_of [] [] 0) + length [evA1]"
proof -
  have h1: "[evA1, evA5] = evA1 # [evA5]" by simp
  have h2: "[evA1, evA5] = [evA1] @ evA5 # []" by simp
  have h3: "evVersion evA5 \<noteq> 0 + of_nat (Suc (length [evA1]))"
    by (simp add: codec0_def evA1_def evA5_def recA1_def store_of_def)
  have h4: "Save_loop codec0 evA1 [evA1, evA5] 0 0 [evA1] (store_of [] [] 0)
              = (None, store_of [recA1] [] 1)"
    by (simp add: codec0_def evA1_def evA5_def recA1_def store_of_def Save_def
        newDBEvent_def Put_If_not_exists_def issue_def key_def item_def SaveError_def
        EventStoreError0_def)
  have h5: "evAggregateID evA5 = evAggregateID evA1"
    by (simp add: codec0_def evA1_def evA5_def recA1_def store_of_def)
  from C6_incorrect_version[OF h1 h2 h3, of codec0 "store_of [] [] 0"] h3 h4 h5
  show ?thesis by blast
qed

section \<open>Claim C4: the slot is taken\<close>

text \<open>
  Claim C4 says that the error of a conflict reports the version at which the caller's
  expectation diverged from the current value. The table holds versions 1 and 2 and an
  event with version 2 is saved with expected version 1: the slot taken is 2, and the
  error carries version 1, the caller's own argument. A batch of versions 1 and 2 with
  expected version 0 gets one and the same error, carrying version 0, whether it meets
  the conflict at slot 1 or, slot 1 being free, at slot 2.
\<close>

theorem C4_counterexample:
  "evVersion evA2 = 2
   \<and> fst (Save codec0 [evA2] 1 (store_of [recA1, recA2] [] 0)) =
        Some (StoreError \<lparr>Err = ErrCouldNotSaveAggregate, Op = EventStoreOpSave,
          errAggregateType = ''Account'', errAggregateID = 1,
          AggregateVersion = 1, Events = [evA2]\<rparr>)
   \<and> evVersion evA1 = 1
   \<and> fst (Save codec0 [evA1, evA2] 0 (store_of [recA1] [] 0)) =
        Some (StoreError \<lparr>Err = ErrCouldNotSaveAggregate, Op = EventStoreOpSave,
          errAggregateType = ''Account'', errAggregateID = 1,
          AggregateVersion = 0, Events = [evA1, evA2]\<rparr>)
   \<and> fst (Save codec0 [evA1, evA2] 0 (store_of [recA2] [] 0)) =
        Some (StoreError \<lparr>Err = ErrCouldNotSaveAggregate, Op = EventStoreOpSave,
          errAggregateType = ''Account'', errAggregateID = 1,
          AggregateVersion = 0, Events = [evA1, evA2]\<rparr>)"
  by (simp add: codec0_def evA1_def evA2_def recA1_def recA2_def store_of_def Save_def
      newDBEvent_def Put_If_not_exists_def issue_def key_def item_def SaveError_def
      EventStoreError0_def)

text \<open>
  Claim C4 as amended. The loop has passed the events before \<open>ev\<close>; \<open>ev\<close> passes
  both checks and is encoded; its put is served, and the table already holds a record
  at the slot \<open>(aggregate_id, version)\<close> of \<open>ev\<close>. Then the conditional put fails
  with \<open>ConditionalCheckFailedException\<close> and the whole \<open>Save\<close> fails with an
  \<open>eh.EventStoreError\<close> whose \<open>Err\<close> is \<open>ErrCouldNotSaveAggregate\<close>. The error
  reports the aggregate type and identity of the first event of the batch, the batch
  itself, and as \<open>AggregateVersion\<close> the \<open>originalVersion\<close> that the caller passed,
  whichever event of the batch met the conflict; this is never the version of the slot
  that was taken (for a batch of fewer than \<open>2^63\<close> events, as every Go slice has).
  The table keeps what the earlier events of the batch wrote.
\<close>

theorem C4_conflict:
  assumes ev: "events = e0 # rest" and split: "events = pre @ ev # post"
    and pre: "Save_loop c e0 events originalVersion originalVersion pre s = (None, s1)"
    and aid: "evAggregateID ev = evAggregateID e0"
    and ver: "evVersion ev = originalVersion + of_nat (Suc (length pre))"
    and enc: "newDBEvent c ev = Inr e"
    and srv: "served s1"
    and tab: "table s1 = Some items"
    and occ: "(evAggregateID ev, evVersion ev) \<in> set (map key items)"
  shows "fst (Save c events originalVersion s) =
           Some (StoreError \<lparr>Err = ErrCouldNotSaveAggregate, Op = EventStoreOpSave,
             errAggregateType = evAggregateType e0, errAggregateID = evAggregateID e0,
             AggregateVersion = originalVersion, Events = events\<rparr>)
         \<and> table (snd (Save c events originalVersion s)) = Some items
         \<and> Put_If_not_exists e s1 =
             (Some (RequestFailure ''ConditionalCheckFailedException''),
              s1\<lparr>faults := tl (faults s1), requests := Suc (requests s1)\<rparr>)
         \<and> (length events < 2 ^ 63 \<longrightarrow> originalVersion \<noteq> evVersion ev)"
proof -
  have k: "key e = (evAggregateID ev, evVersion ev)"
    using newDBEvent_Inr[OF enc] by (simp add: key_def)
  have i: "issue s1 = (None, s1\<lparr>faults := tl (faults s1), requests := Suc (requests s1)\<rparr>)"
    using srv by (auto simp: served_def issue_def split: list.splits)
  have p: "Put_If_not_exists e s1 =
             (Some (RequestFailure ''ConditionalCheckFailedException''),
              s1\<lparr>faults := tl (faults s1), requests := Suc (requests s1)\<rparr>)"
    using occ tab by (simp add: Put_If_not_exists_def i k)
  have "originalVersion + of_nat (length pre) + 1 = originalVersion + of_nat (Suc (length pre))"
    by simp
  with Save_reaches[OF ev split pre] aid ver enc p
  have "Save c events originalVersion s =
     (Some (SaveError ErrCouldNotSaveAggregate e0 events originalVersion),
      s1\<lparr>faults := tl (faults s1), requests := Suc (requests s1)\<rparr>)"
    by simp
  moreover have "originalVersion \<noteq> evVersion ev" if "length events < 2 ^ 63"
  proof -
    have "Suc (length pre) < 2 ^ 63" using that split by simp
    from of_nat_word_neq[OF _ this, of 0 originalVersion] show ?thesis
      unfolding ver by simp
  qed
  ultimately show ?thesis using tab p by (simp add: SaveError_def)
qed

theorem C4_conflict_witness:
  "Save_loop codec0 evA1 [evA1, evA2] 0 0 [evA1] (store_of [recA2] [] 0)
      = (None, store_of [recA2, recA1] [] 1)
   \<and> served (store_of [recA2, recA1] [] 1)
   \<and> (evAggregateID evA2, evVersion evA2) \<in> set (map key [recA2, recA1])
   \<and> fst (Save codec0 [evA1, evA2] 0 (store_of [recA2] [] 0)) =
           Some (StoreError \<lparr>Err = ErrCouldNotSaveAggregate, Op = EventStoreOpSave,
             errAggregateType = evAggregateType evA1, errAggregateID = evAggregateID evA1,
             AggregateVersion = 0, Events = [evA1, evA2]\<rparr>)
   \<and> table (snd (Save codec0 [evA1, evA2] 0 (store_of [recA2] [] 0))) = Some [recA2, recA1]
   \<and> length [evA1, evA2] < 2 ^ 63
   \<and> (0 :: GoInt) \<noteq> evVersion evA2"
proof -
  have h1: "[evA1, evA2] = evA1 # [evA2]" by simp
  have h2: "[evA1, evA2] = [evA1] @ evA2 # []" by simp
  have h3: "Save_loop codec0 evA1 [evA1, evA2] 0 0 [evA1] (store_of [recA2] [] 0)
      = (None, store_of [recA2, recA1] [] 1)"
    by (simp add: codec0_def evA1_def evA2_def recA1_def recA2_def store_of_def
        newDBEvent_def Put_If_not_exists_def issue_def key_def item_def SaveError_def
        EventStoreError0_def)
  have h4: "evAggregateID evA2 = evAggregateID evA1" by (simp add: evA1_def evA2_def)
  have h5: "evVersion evA2 = 0 + of_nat (Suc (length [evA1]))" by (simp add: evA2_def)
  have h6: "newDBEvent codec0 evA2 = Inr recA2"
    by (simp add: codec0_def evA2_def recA2_def newDBEvent_def)
  have h7: "served (store_of [recA2, recA1] [] 1)"
    by (simp add: store_of_def served_def issue_def)
  have h8: "table (store_of [recA2, recA1] [] 1) = Some [recA2, recA1]"
    by (simp add: store_of_def)
  have h9: "(evAggregateID evA2, evVersion evA2) \<in> set (map key [recA2, recA1])"
    by (simp add: evA2_def recA1_def recA2_def key_def)
  have h10: "length [evA1, evA2] < 2 ^ 63" by simp
  from C4_conflict[OF h1 h2 h3 h4 h5 h6 h7 h8 h9] h3 h7 h9 h10
  show ?thesis by simp
qed

section \<open>Claim C2: a batch that fails part of the way\<close>











section \<open>Claim C5: decoding the records of a load\<close>

text \<open>
  Claim C5. \<open>buildEvents\<close> fails, with an \<open>eh.EventStoreError\<close> whose \<open>Err\<close> is
  \<open>ErrCouldNotUnmarshalEvent\<close>, exactly when some record has a type tag with a
  registered constructor and a stored payload that does not decode into it. Otherwise
  it succeeds and returns the records in order, each as \<open>decoded\<close> says: a record whose
  type tag has no constructor is returned as it was read, so its \<open>Data()\<close> is the
  \<open>data\<close> of the record read (nil for every record that comes from the store) and
  its stored payload is left in \<open>RawData\<close>; every other record carries its decoded
  payload.
\<close>

theorem C5_buildEvents:
  "(if \<exists>r\<in>set recs. decode_fails c r
    then buildEvents c recs =
           Inl (StoreError \<lparr>Err = ErrCouldNotUnmarshalEvent, Op = EventStoreOpLoad,
                  errAggregateType = [], errAggregateID = 0, AggregateVersion = 0,
                  Events = []\<rparr>)
    else \<exists>loaded. buildEvents c recs = Inr loaded \<and> list_all2 (decoded c) recs loaded
           \<and> (\<forall>i<length recs. CreateEventData c (EventType (recs ! i)) = None \<longrightarrow>
                 evData (event (loaded ! i)) = data (recs ! i)
                 \<and> RawData (loaded ! i) = RawData (recs ! i)))"
proof (induction recs)
  case Nil
  then show ?case by simp
next
  case (Cons r recs)
  show ?case
  proof (cases "\<exists>x\<in>set (r # recs). decode_fails c x")
    case True
    then show ?thesis using Cons.IH
      by (auto simp: decode_fails_def EventStoreError0_def split: option.splits)
  next
    case False
    then have nf: "\<not> decode_fails c r" "\<not> (\<exists>x\<in>set recs. decode_fails c x)" by auto
    with Cons.IH obtain loaded where
      l: "buildEvents c recs = Inr loaded" "list_all2 (decoded c) recs loaded"
      by auto
    obtain r' where r': "buildEvents c (r # recs) = Inr (r' # loaded)" "decoded c r r'"
      using nf(1) l(1) by (auto simp: decode_fails_def decoded_def split: option.splits)
    have all: "list_all2 (decoded c) (r # recs) (r' # loaded)" using r'(2) l(2) by simp
    have "evData (event ((r' # loaded) ! i)) = data ((r # recs) ! i)
            \<and> RawData ((r' # loaded) ! i) = RawData ((r # recs) ! i)"
      if "i < length (r # recs)" "CreateEventData c (EventType ((r # recs) ! i)) = None" for i
      using list_all2_nthD[OF all that(1)] that(2) by (simp add: decoded_def event_def)
    with False r'(1) all show ?thesis by simp
  qed
qed

theorem C5_buildEvents_witness:
  "\<not> decode_fails codec0 recA1 \<and> \<not> decode_fails codec0 recA2 \<and> decode_fails codec0 recA3
   \<and> CreateEventData codec0 (EventType recA2) = None
   \<and> buildEvents codec0 [recA1, recA2] = Inr [recA1\<lparr>data := Some 7, RawData := None\<rparr>, recA2]
   \<and> evData (event recA2) = None
   \<and> buildEvents codec0 [recA1, recA3, recA2] =
       Inl (StoreError \<lparr>Err = ErrCouldNotUnmarshalEvent, Op = EventStoreOpLoad,
              errAggregateType = [], errAggregateID = 0, AggregateVersion = 0, Events = []\<rparr>)"
proof -
  have d: "\<not> decode_fails codec0 recA1" "\<not> decode_fails codec0 recA2"
    "decode_fails codec0 recA3" "CreateEventData codec0 (EventType recA2) = None"
    "evData (event recA2) = None"
    by (simp_all add: codec0_def recA1_def recA2_def recA3_def decode_fails_def event_def)
  have a: "buildEvents codec0 [recA1, recA2] = Inr [recA1\<lparr>data := Some 7, RawData := None\<rparr>, recA2]"
    using C5_buildEvents[of "[recA1, recA2]" codec0] d(1,2)
    by (auto simp: list_all2_Cons1 decoded_def codec0_def recA1_def recA2_def recA3_def)
  have b: "buildEvents codec0 [recA1, recA3, recA2] =
       Inl (StoreError \<lparr>Err = ErrCouldNotUnmarshalEvent, Op = EventStoreOpLoad,
              errAggregateType = [], errAggregateID = 0, AggregateVersion = 0, Events = []\<rparr>)"
    using C5_buildEvents[of "[recA1, recA3, recA2]" codec0] d(3) by simp
  from a b d show ?thesis by simp
qed

section \<open>Claim C7: loading when the read fails\<close>

text \<open>
  Claim C7 says that a storage failure other than "resource not found" is surfaced by
  \<open>Load\<close> as an \<open>eh.EventStoreError\<close> wrapping the cause. The table holds a record of
  aggregate 1 and the read fails with an error that is not an \<open>awserr.RequestFailure\<close>
  (the request could not be sent): \<open>Load\<close> returns the empty sequence and no error.
  A request failure with another code is surfaced, as the second part shows, and so is
  the same failure by \<open>LoadAll\<close>, which tests the error the read returned.
\<close>

theorem C7_Load_swallows_failure:
  "Load codec0 1 (store_of [recA1] [Some (OtherFailure ''RequestError: send request failed'')] 0)
     = (Inr [], store_of [recA1] [] 1)
   \<and> Load codec0 1 (store_of [recA1] [Some (RequestFailure ''InternalServerError'')] 0)
     = (Inl (StoreError \<lparr>Err = StoreFailure (RequestFailure ''InternalServerError''),
               Op = EventStoreOpLoad, errAggregateType = [], errAggregateID = 1,
               AggregateVersion = 0, Events = []\<rparr>), store_of [recA1] [] 1)
   \<and> LoadAll codec0 (store_of [recA1] [Some (OtherFailure ''RequestError: send request failed'')] 0)
     = (Inl (StoreError \<lparr>Err = StoreFailure (OtherFailure ''RequestError: send request failed''),
               Op = EventStoreOpLoad, errAggregateType = [], errAggregateID = 0,
               AggregateVersion = 0, Events = []\<rparr>), store_of [recA1] [] 1)"
  by (simp add: codec0_def recA1_def store_of_def Load_def Get_All_def issue_def item_def
      EventStoreError0_def LoadAll_def Scan_All_def)

section \<open>Claim C8: Replace and its two conditions\<close>



section \<open>Claim C9: what a successful Replace changes\<close>

text \<open>
  Claim C9. After a \<open>Replace\<close> that returns no error the table has the same keys in
  the same places, a record at the key \<open>(aggregate_id, version)\<close> of the event existed,
  and the record at that key differs from the one before only in \<open>EventType\<close>, the
  stored payload \<open>RawData\<close>, \<open>Timestamp\<close>, \<open>AggregateType\<close> and \<open>Metadata\<close>, which are
  those of the event (the unexported \<open>data\<close> is never stored); its \<open>AggregateID\<close> and
  \<open>Version\<close> are the ones it had. Every record at another key is the one it was.
\<close>

theorem C9_Replace_frame:
  assumes rep: "Replace c ev s = (None, s')" and tab: "table s = Some items"
  shows "\<exists>items'. table s' = Some items'
     \<and> map key items' = map key items
     \<and> (evAggregateID ev, evVersion ev) \<in> set (map key items)
     \<and> (\<forall>i<length items.
           if key (items ! i) = (evAggregateID ev, evVersion ev)
           then items' ! i = (items ! i)\<lparr>EventType := evEventType ev,
                  RawData := (case evData ev of None \<Rightarrow> None | Some d \<Rightarrow> MarshalMap c d),
                  data := None, Timestamp := evTimestamp ev,
                  AggregateType := evAggregateType ev, Metadata := evMetadata ev\<rparr>
           else items' ! i = items ! i)"
proof -
  obtain n f s0 where cnt: "Get_Count (evAggregateID ev) s = ((n, f), s0)"
    by (cases "Get_Count (evAggregateID ev) s") auto
  have t0: "table s0 = table s"
    using cnt by (auto simp: Get_Count_def dest: issue_cases split: prod.splits option.splits)
  from rep cnt obtain e where enc: "newDBEvent c ev = Inr e"
    and put: "Put_If_exists e s0 = (None, s')"
    by (auto simp: Replace_def split: option.splits if_splits sum.splits prod.splits
        aws_error.splits)
  have k: "key e = (evAggregateID ev, evVersion ev)"
    using newDBEvent_Inr[OF enc] by (simp add: key_def)
  from put t0 tab have occ: "key e \<in> set (map key items)"
    and t': "table s' = Some (map (\<lambda>r. if key r = key e then item e else r) items)"
    by (auto simp: Put_If_exists_def dest: issue_cases split: prod.splits option.splits if_splits)
  let ?items' = "map (\<lambda>r. if key r = key e then item e else r) items"
  have A: "map key ?items' = map key items"
    by (auto simp: key_def item_def)
  have C: "(evAggregateID ev, evVersion ev) \<in> set (map key items)"
    using occ unfolding k .
  have B: "\<forall>i<length items.
           if key (items ! i) = (evAggregateID ev, evVersion ev)
           then ?items' ! i = (items ! i)\<lparr>EventType := evEventType ev,
                  RawData := (case evData ev of None \<Rightarrow> None | Some d \<Rightarrow> MarshalMap c d),
                  data := None, Timestamp := evTimestamp ev,
                  AggregateType := evAggregateType ev, Metadata := evMetadata ev\<rparr>
           else ?items' ! i = items ! i"
  proof (intro allI impI)
    fix i assume i: "i < length items"
    show "if key (items ! i) = (evAggregateID ev, evVersion ev)
           then ?items' ! i = (items ! i)\<lparr>EventType := evEventType ev,
                  RawData := (case evData ev of None \<Rightarrow> None | Some d \<Rightarrow> MarshalMap c d),
                  data := None, Timestamp := evTimestamp ev,
                  AggregateType := evAggregateType ev, Metadata := evMetadata ev\<rparr>
           else ?items' ! i = items ! i"
    proof (cases "key (items ! i) = (evAggregateID ev, evVersion ev)")
      case True
      then have "AggregateID (items ! i) = AggregateID e" "Version (items ! i) = Version e"
        using k by (simp_all add: key_def)
      then have "item e = (items ! i)\<lparr>EventType := evEventType ev,
                  RawData := (case evData ev of None \<Rightarrow> None | Some d \<Rightarrow> MarshalMap c d),
                  data := None, Timestamp := evTimestamp ev,
                  AggregateType := evAggregateType ev, Metadata := evMetadata ev\<rparr>"
        using newDBEvent_Inr[OF enc] item_newDBEvent[OF enc] by (cases e, cases "items ! i") simp
      with True i k show ?thesis by simp
    next
      case False
      with i k show ?thesis by simp
    qed
  qed
  show ?thesis by (rule exI[of _ ?items']) (intro conjI t' A C B)
qed

theorem C9_Replace_frame_witness:
  "Replace codec0 evA2r (store_of [recA1, recA2] [] 0) = (None, store_of [recA1, recA2r] [] 2)
   \<and> (\<exists>items'. table (store_of [recA1, recA2r] [] 2) = Some items'
     \<and> map key items' = map key [recA1, recA2]
     \<and> (evAggregateID evA2r, evVersion evA2r) \<in> set (map key [recA1, recA2])
     \<and> (\<forall>i<length [recA1, recA2].
           if key ([recA1, recA2] ! i) = (evAggregateID evA2r, evVersion evA2r)
           then items' ! i = ([recA1, recA2] ! i)\<lparr>EventType := evEventType evA2r,
                  RawData := (case evData evA2r of None \<Rightarrow> None | Some d \<Rightarrow> MarshalMap codec0 d),
                  data := None, Timestamp := evTimestamp evA2r,
                  AggregateType := evAggregateType evA2r, Metadata := evMetadata evA2r\<rparr>
           else items' ! i = [recA1, recA2] ! i))"
proof -
  have h1: "Replace codec0 evA2r (store_of [recA1, recA2] [] 0) = (None, store_of [recA1, recA2r] [] 2)"
    by (simp add: codec0_def recA1_def recA2_def evA2r_def recA2r_def store_of_def
        Replace_def Get_Count_def Put_If_exists_def newDBEvent_def issue_def key_def
        item_def EventStoreError0_def)
  have h2: "table (store_of [recA1, recA2] [] 0) = Some [recA1, recA2]"
    by (simp add: store_of_def)
  from C9_Replace_frame[OF h1 h2] h1 show ?thesis by simp
qed

section \<open>Claim C10: renaming an event type\<close>

lemma find_key:
  "distinct (map key items) \<Longrightarrow> r \<in> set items \<Longrightarrow> find (\<lambda>x. key x = key r) items = Some r"
  by (induction items) (auto simp: image_iff)

lemma find_key_Some:
  "find (\<lambda>x. key x = k) items = Some r0 \<Longrightarrow> r0 \<in> set items \<and> key r0 = k"
  by (induction items) (auto split: if_splits)

lemma key_rename [simp]: "key (r\<lparr>EventType := to\<rparr>) = key r"
  by (simp add: key_def)

lemma key_item [simp]: "key (item r) = key r"
  by (simp add: key_def item_def)

lemma map_key_rename:
  "map key (map (\<lambda>r. if key r = k then r\<lparr>EventType := to\<rparr> else r) items) = map key items"
  by (induction items) auto

lemma Update_If_Set_None:
  "Update_If_Set aid v from to s = (None, s') \<Longrightarrow>
     \<exists>items r0. table s = Some items \<and> find (\<lambda>r. key r = (aid, v)) items = Some r0
       \<and> EventType r0 = from
       \<and> s' = s\<lparr>table := Some (map (\<lambda>r. if key r = (aid, v) then r\<lparr>EventType := to\<rparr> else r) items),
                 faults := tl (faults s), requests := Suc (requests s)\<rparr>"
  by (auto simp: Update_If_Set_def issue_def split: prod.splits option.splits if_splits list.splits)

lemma Update_If_Set_Some:
  "Update_If_Set aid v from to s = (Some f, s') \<Longrightarrow>
     s' = s\<lparr>faults := tl (faults s), requests := Suc (requests s)\<rparr>"
  by (auto simp: Update_If_Set_def issue_def split: prod.splits option.splits if_splits list.splits)

lemma rename_step_frame:
  assumes wf: "distinct (map key items)"
    and f: "find (\<lambda>r. key r = k) items = Some r0" and t: "EventType r0 = from"
    and i: "i < length items"
  shows "map (\<lambda>r. if key r = k then r\<lparr>EventType := to\<rparr> else r) items ! i = items ! i
     \<or> (EventType (items ! i) = from
        \<and> map (\<lambda>r. if key r = k then r\<lparr>EventType := to\<rparr> else r) items ! i
            = (items ! i)\<lparr>EventType := to\<rparr>)"
proof (cases "key (items ! i) = k")
  case True
  from find_key_Some[OF f] have r0: "r0 \<in> set items" "key r0 = k" by auto
  have "items ! i \<in> set items" using i by simp
  moreover have "inj_on key (set items)" using wf by (simp add: distinct_map)
  ultimately have "items ! i = r0" using r0 True by (auto dest: inj_onD)
  with True t i show ?thesis by simp
next
  case False
  with i show ?thesis by simp
qed

lemma RenameEvent_loop_frame:
  "table s = Some items \<Longrightarrow> distinct (map key items) \<Longrightarrow>
   RenameEvent_loop from to ds s = (r, s') \<Longrightarrow>
     \<exists>items'. table s' = Some items' \<and> map key items' = map key items
       \<and> (\<forall>i<length items. items' ! i = items ! i
             \<or> (EventType (items ! i) = from \<and> items' ! i = (items ! i)\<lparr>EventType := to\<rparr>))"
proof (induction ds arbitrary: s items)
  case Nil
  then show ?case by auto
next
  case (Cons d ds)
  obtain f s1 where u: "Update_If_Set (AggregateID d) (Version d) from to s = (f, s1)"
    by (cases "Update_If_Set (AggregateID d) (Version d) from to s")
  show ?case
  proof (cases f)
    case (Some failure)
    with u Cons.prems(3) have "s' = s1" by simp
    with Update_If_Set_Some[OF u[unfolded Some]] Cons.prems(1) show ?thesis by auto
  next
    case None
    let ?k = "(AggregateID d, Version d)"
    let ?items1 = "map (\<lambda>r. if key r = ?k then r\<lparr>EventType := to\<rparr> else r) items"
    from Update_If_Set_None[OF u[unfolded None]] Cons.prems(1) obtain r0 where
      f: "find (\<lambda>r. key r = ?k) items = Some r0" "EventType r0 = from"
      and s1: "table s1 = Some ?items1" by auto
    have k1: "map key ?items1 = map key items" by (rule map_key_rename)
    have wf1: "distinct (map key ?items1)" by (simp only: k1 Cons.prems(2))
    from u None Cons.prems(3) have "RenameEvent_loop from to ds s1 = (r, s')" by simp
    from Cons.IH[OF s1 wf1 this] obtain items' where
      i': "table s' = Some items'" "map key items' = map key ?items1"
      "\<forall>i<length ?items1. items' ! i = ?items1 ! i
             \<or> (EventType (?items1 ! i) = from \<and> items' ! i = (?items1 ! i)\<lparr>EventType := to\<rparr>)"
      by blast
    have "items' ! i = items ! i
             \<or> (EventType (items ! i) = from \<and> items' ! i = (items ! i)\<lparr>EventType := to\<rparr>)"
      if i: "i < length items" for i
    proof -
      from i'(3) i have a: "items' ! i = ?items1 ! i
             \<or> (EventType (?items1 ! i) = from \<and> items' ! i = (?items1 ! i)\<lparr>EventType := to\<rparr>)"
        by simp
      from rename_step_frame[OF Cons.prems(2) f i, of to]
      have b: "?items1 ! i = items ! i
        \<or> (EventType (items ! i) = from \<and> ?items1 ! i = (items ! i)\<lparr>EventType := to\<rparr>)" .
      from a b show ?thesis by auto
    qed
    with i'(1,2) k1 show ?thesis by auto
  qed
qed

lemma Update_If_Set_served:
  assumes "served s" and "table s = Some items"
    and "find (\<lambda>r. key r = (aid, v)) items = Some r0" and "EventType r0 = from"
  shows "Update_If_Set aid v from to s =
     (None, s\<lparr>table := Some (map (\<lambda>r. if key r = (aid, v) then r\<lparr>EventType := to\<rparr> else r) items),
               faults := tl (faults s), requests := Suc (requests s)\<rparr>)"
  using assms(2-4) by (simp add: Update_If_Set_def issue_served[OF assms(1)])

lemma RenameEvent_loop_progress:
  assumes "table s = Some items" and "distinct (map key items)" and "distinct (map key ds)"
    and "\<forall>d\<in>set ds. \<exists>r\<in>set items. key r = key d \<and> EventType r = from"
    and "\<forall>j<k. j < length (faults s) \<longrightarrow> faults s ! j = None"
    and "k \<le> length ds"
  shows "RenameEvent_loop from to ds s =
     RenameEvent_loop from to (drop k ds)
       (s\<lparr>table := Some (map (\<lambda>r. if key r \<in> key ` set (take k ds)
                                  then r\<lparr>EventType := to\<rparr> else r) items),
          faults := drop k (faults s), requests := requests s + k\<rparr>)"
  using assms
proof (induction ds arbitrary: k s items)
  case Nil
  then show ?case by simp
next
  case (Cons d ds)
  show ?case
  proof (cases k)
    case 0
    have "s\<lparr>table := Some items\<rparr> = s" using Cons.prems(1) by (cases s) simp
    with 0 show ?thesis by simp
  next
    case (Suc k')
    let ?k = "(AggregateID d, Version d)"
    let ?items1 = "map (\<lambda>r. if key r = ?k then r\<lparr>EventType := to\<rparr> else r) items"
    let ?s1 = "s\<lparr>table := Some ?items1, faults := tl (faults s), requests := Suc (requests s)\<rparr>"
    have kd: "key d = ?k" by (simp add: key_def)
    have srv: "served s"
      using Cons.prems(5) Suc by (cases "faults s") (auto simp: served_def issue_def)
    from Cons.prems(4) obtain r0 where r0: "r0 \<in> set items" "key r0 = ?k" "EventType r0 = from"
      using kd by auto
    from find_key[OF Cons.prems(2) r0(1)] r0(2)
    have f: "find (\<lambda>r. key r = ?k) items = Some r0" by simp
    have step: "RenameEvent_loop from to (d # ds) s = RenameEvent_loop from to ds ?s1"
      by (simp add: Update_If_Set_served[OF srv Cons.prems(1) f r0(3)])
    have t1: "table ?s1 = Some ?items1" by simp
    have wf1: "distinct (map key ?items1)" by (simp only: map_key_rename Cons.prems(2))
    have dd: "distinct (map key ds)" "key d \<notin> key ` set ds" using Cons.prems(3) by auto
    have mem: "\<forall>d'\<in>set ds. \<exists>r\<in>set ?items1. key r = key d' \<and> EventType r = from"
    proof
      fix d' assume d': "d' \<in> set ds"
      with Cons.prems(4) obtain r where r: "r \<in> set items" "key r = key d'" "EventType r = from"
        by auto
      have "key r \<noteq> ?k" using dd(2) d' r(2) kd by force
      then have "r \<in> set ?items1" using r(1) by (auto simp: image_iff intro!: bexI[of _ r])
      with r show "\<exists>r\<in>set ?items1. key r = key d' \<and> EventType r = from" by blast
    qed
    have fl: "\<forall>j<k'. j < length (faults ?s1) \<longrightarrow> faults ?s1 ! j = None"
    proof (intro allI impI)
      fix j assume j: "j < k'" "j < length (faults ?s1)"
      then have "Suc j < k" "Suc j < length (faults s)" using Suc by auto
      with Cons.prems(5) have "faults s ! Suc j = None" by blast
      then show "faults ?s1 ! j = None" using j(2) by (simp add: nth_tl)
    qed
    have kl: "k' \<le> length ds" using Cons.prems(6) Suc by simp
    note IH = Cons.IH[OF t1 wf1 dd(1) mem fl kl]
    have tbl: "map ((\<lambda>r. if key r \<in> key ` set (take k' ds) then r\<lparr>EventType := to\<rparr> else r)
                 \<circ> (\<lambda>r. if key r = ?k then r\<lparr>EventType := to\<rparr> else r)) items
        = map (\<lambda>r. if key r = ?k \<or> key r \<in> key ` set (take k' ds)
                    then r\<lparr>EventType := to\<rparr> else r) items"
      by auto
    show ?thesis
      unfolding step IH using Suc kd
      by (simp add: tbl drop_Suc)
  qed
qed

lemma Scan_Filter_served:
  "served s \<Longrightarrow> table s = Some items \<Longrightarrow>
     Scan_Filter from s =
       ((map item (filter (\<lambda>r. EventType r = from) items), None),
        s\<lparr>faults := tl (faults s), requests := Suc (requests s)\<rparr>)"
  by (simp add: Scan_Filter_def issue_served)

lemma scan_facts:
  assumes wf: "distinct (map key items)"
  shows "distinct (map key (map item (filter (\<lambda>r. EventType r = from) items)))"
    and "\<forall>d\<in>set (map item (filter (\<lambda>r. EventType r = from) items)).
           \<exists>r\<in>set items. key r = key d \<and> EventType r = from"
    and "key ` set (take k (map item (filter (\<lambda>r. EventType r = from) items)))
           = key ` set (take k (filter (\<lambda>r. EventType r = from) items))"
proof -
  have ki: "key \<circ> (item :: ('a, 'b) dbEvent \<Rightarrow> ('a, 'b) dbEvent) = key" by (rule ext) simp
  have "distinct (map key (filter (\<lambda>r. EventType r = from) items))"
    using wf by (rule distinct_map_filter)
  then show "distinct (map key (map item (filter (\<lambda>r. EventType r = from) items)))"
    by (simp add: ki)
  show "\<forall>d\<in>set (map item (filter (\<lambda>r. EventType r = from) items)).
           \<exists>r\<in>set items. key r = key d \<and> EventType r = from"
    by auto
  show "key ` set (take k (map item (filter (\<lambda>r. EventType r = from) items)))
           = key ` set (take k (filter (\<lambda>r. EventType r = from) items))"
    by (simp add: take_map image_image)
qed

lemma rename_all_matches:
  assumes wf: "distinct (map key items)"
  shows "map (\<lambda>r. if key r \<in> key ` set (filter (\<lambda>r. EventType r = from) items)
                   then r\<lparr>EventType := to\<rparr> else r) items
       = map (\<lambda>r. if EventType r = from then r\<lparr>EventType := to\<rparr> else r) items"
proof (rule map_cong[OF refl])
  fix r assume r: "r \<in> set items"
  have inj: "inj_on key (set items)" using wf by (simp add: distinct_map)
  have "key r \<in> key ` set (filter (\<lambda>r. EventType r = from) items) \<longleftrightarrow> EventType r = from"
  proof
    assume "key r \<in> key ` set (filter (\<lambda>r. EventType r = from) items)"
    then obtain r' where r': "r' \<in> set items" "EventType r' = from" "key r' = key r" by auto
    with inj r have "r' = r" by (auto dest: inj_onD)
    with r' show "EventType r = from" by simp
  next
    assume "EventType r = from"
    with r show "key r \<in> key ` set (filter (\<lambda>r. EventType r = from) items)" by auto
  qed
  then show "(if key r \<in> key ` set (filter (\<lambda>r. EventType r = from) items)
                   then r\<lparr>EventType := to\<rparr> else r)
       = (if EventType r = from then r\<lparr>EventType := to\<rparr> else r)" by simp
qed

lemma RenameEvent_frame:
  assumes tab: "table s = Some items" and wf: "distinct (map key items)"
  shows "\<exists>items'. table (snd (RenameEvent from to s)) = Some items'
       \<and> map key items' = map key items
       \<and> (\<forall>i<length items. items' ! i = items ! i
             \<or> (EventType (items ! i) = from \<and> items' ! i = (items ! i)\<lparr>EventType := to\<rparr>))"
proof -
  obtain ds f s0 where sc: "Scan_Filter from s = ((ds, f), s0)"
    by (cases "Scan_Filter from s") auto
  have t0: "table s0 = Some items"
    using sc tab by (auto simp: Scan_Filter_def dest: issue_cases split: prod.splits option.splits)
  show ?thesis
  proof (cases f)
    case (Some failure)
    with sc t0 show ?thesis by (auto simp: RenameEvent_def)
  next
    case None
    obtain r s' where l: "RenameEvent_loop from to ds s0 = (r, s')"
      by (cases "RenameEvent_loop from to ds s0")
    with sc None have "snd (RenameEvent from to s) = s'" by (simp add: RenameEvent_def)
    with RenameEvent_loop_frame[OF t0 wf l] show ?thesis by simp
  qed
qed

lemma RenameEvent_abort:
  assumes tab: "table s = Some items" and wf: "distinct (map key items)"
    and fl: "faults s = replicate (Suc k) None @ Some err # fs"
    and k: "k < length (filter (\<lambda>r. EventType r = from) items)"
  shows "RenameEvent from to s =
     (Some (StoreError (EventStoreError0 (StoreFailure err))),
      s\<lparr>table := Some (map (\<lambda>r. if key r \<in> key ` set (take k (filter (\<lambda>r. EventType r = from) items))
                                 then r\<lparr>EventType := to\<rparr> else r) items),
        faults := fs, requests := requests s + k + 2\<rparr>)"
proof -
  let ?ds = "map item (filter (\<lambda>r. EventType r = from) items)"
  let ?s0 = "s\<lparr>faults := tl (faults s), requests := Suc (requests s)\<rparr>"
  let ?T = "map (\<lambda>r. if key r \<in> key ` set (take k ?ds) then r\<lparr>EventType := to\<rparr> else r) items"
  let ?sk = "?s0\<lparr>table := Some ?T, faults := drop k (faults ?s0), requests := requests ?s0 + k\<rparr>"
  have srv: "served s" using fl by (simp add: served_def issue_def)
  note sf = scan_facts[OF wf]
  have f0: "faults ?s0 = replicate k None @ Some err # fs" using fl by simp
  have served_k: "\<forall>j<k. j < length (faults ?s0) \<longrightarrow> faults ?s0 ! j = None"
    unfolding f0 by (simp add: nth_append)
  have kl: "k \<le> length ?ds" using k by simp
  have t0: "table ?s0 = Some items" using tab by simp
  have "RenameEvent from to s = RenameEvent_loop from to ?ds ?s0"
    by (simp add: RenameEvent_def Scan_Filter_served[OF srv tab])
  also have "\<dots> = RenameEvent_loop from to (drop k ?ds) ?sk"
    by (rule RenameEvent_loop_progress[OF t0 wf sf(1) sf(2) served_k kl])
  also have "drop k ?ds = ?ds ! k # drop (Suc k) ?ds"
    by (rule Cons_nth_drop_Suc[symmetric]) (use k in simp)
  also have "RenameEvent_loop from to (?ds ! k # drop (Suc k) ?ds) ?sk =
      (Some (StoreError (EventStoreError0 (StoreFailure err))),
       ?sk\<lparr>faults := fs, requests := Suc (requests ?sk)\<rparr>)"
    using f0 by (simp add: Update_If_Set_def issue_def)
  finally show ?thesis by (simp add: sf(3))
qed

lemma RenameEvent_all:
  assumes tab: "table s = Some items" and wf: "distinct (map key items)"
    and fl: "faults s = []"
  shows "RenameEvent from to s =
     (None, s\<lparr>table := Some (map (\<lambda>r. if EventType r = from then r\<lparr>EventType := to\<rparr> else r) items),
               requests := requests s + Suc (length (filter (\<lambda>r. EventType r = from) items))\<rparr>)"
proof -
  let ?ds = "map item (filter (\<lambda>r. EventType r = from) items)"
  let ?s0 = "s\<lparr>faults := tl (faults s), requests := Suc (requests s)\<rparr>"
  have srv: "served s" using fl by (simp add: served_def issue_def)
  note sf = scan_facts[OF wf]
  have served_k: "\<forall>j<length ?ds. j < length (faults ?s0) \<longrightarrow> faults ?s0 ! j = None"
    using fl by simp
  have t0: "table ?s0 = Some items" using tab by simp
  have same: "s\<lparr>faults := []\<rparr> = s" using fl by (cases s) simp
  have "RenameEvent from to s = RenameEvent_loop from to ?ds ?s0"
    by (simp add: RenameEvent_def Scan_Filter_served[OF srv tab])
  also have "\<dots> = RenameEvent_loop from to (drop (length ?ds) ?ds)
       (?s0\<lparr>table := Some (map (\<lambda>r. if key r \<in> key ` set (take (length ?ds) ?ds)
                                  then r\<lparr>EventType := to\<rparr> else r) items),
          faults := drop (length ?ds) (faults ?s0), requests := requests ?s0 + length ?ds\<rparr>)"
    by (rule RenameEvent_loop_progress[OF t0 wf sf(1) sf(2) served_k order_refl])
  finally show ?thesis
    using rename_all_matches[OF wf] sf(3)[of "length ?ds"] fl same
    by (simp add: image_image)
qed

text \<open>
  Claim C10, for a table that holds at most one record for each key. Four parts.
  First, whatever happens: after \<open>RenameEvent\<close> the table has the same keys in the
  same places, and each record is either the one it was or, if its \<open>EventType\<close> was
  \<open>from\<close>, that record with only \<open>EventType\<close> set to \<open>to\<close>; so a record whose type
  is not \<open>from\<close> is unchanged. Second, the abort: when the scan and the first \<open>k\<close>
  updates are served and the next update fails with \<open>err\<close>, \<open>RenameEvent\<close> returns
  an \<open>eh.EventStoreError\<close> whose \<open>Err\<close> is \<open>err\<close> (nothing else is set in it), no
  further request is issued, and the first \<open>k\<close> matching records, in the order of
  the scan, stay renamed while the others keep their type. Third, when every request
  is served, exactly the records of type \<open>from\<close> are renamed. Fourth, the guard: an
  update of the loop for a record whose type in the table is no longer \<open>from\<close> fails
  with \<open>ConditionalCheckFailedException\<close>, which ends the rename, and leaves the
  table as it is.
\<close>

theorem C10_RenameEvent:
  assumes tab: "table s = Some items" and wf: "distinct (map key items)"
  shows "(\<exists>items'. table (snd (RenameEvent from to s)) = Some items'
            \<and> map key items' = map key items
            \<and> (\<forall>i<length items. items' ! i = items ! i
                  \<or> (EventType (items ! i) = from
                     \<and> items' ! i = (items ! i)\<lparr>EventType := to\<rparr>)))
    \<and> (\<forall>k err fs. faults s = replicate (Suc k) None @ Some err # fs
            \<and> k < length (filter (\<lambda>r. EventType r = from) items) \<longrightarrow>
          RenameEvent from to s =
            (Some (StoreError (EventStoreError0 (StoreFailure err))),
             s\<lparr>table := Some (map (\<lambda>r. if key r \<in> key ` set (take k
                                             (filter (\<lambda>r. EventType r = from) items))
                                        then r\<lparr>EventType := to\<rparr> else r) items),
               faults := fs, requests := requests s + k + 2\<rparr>))
    \<and> (faults s = [] \<longrightarrow>
          RenameEvent from to s =
            (None, s\<lparr>table := Some (map (\<lambda>r. if EventType r = from
                                              then r\<lparr>EventType := to\<rparr> else r) items),
                      requests := requests s
                         + Suc (length (filter (\<lambda>r. EventType r = from) items))\<rparr>))
    \<and> (\<forall>d rest r0. served s \<and> find (\<lambda>r. key r = key d) items = Some r0
            \<and> EventType r0 \<noteq> from \<longrightarrow>
          RenameEvent_loop from to (d # rest) s =
            (Some (StoreError (EventStoreError0
                     (StoreFailure (RequestFailure ''ConditionalCheckFailedException'')))),
             s\<lparr>faults := tl (faults s), requests := Suc (requests s)\<rparr>))"
proof (intro conjI allI impI)
  show "\<exists>items'. table (snd (RenameEvent from to s)) = Some items'
            \<and> map key items' = map key items
            \<and> (\<forall>i<length items. items' ! i = items ! i
                  \<or> (EventType (items ! i) = from
                     \<and> items' ! i = (items ! i)\<lparr>EventType := to\<rparr>))"
    by (rule RenameEvent_frame[OF tab wf])
next
  fix k err fs
  assume "faults s = replicate (Suc k) None @ Some err # fs
            \<and> k < length (filter (\<lambda>r. EventType r = from) items)"
  then show "RenameEvent from to s =
            (Some (StoreError (EventStoreError0 (StoreFailure err))),
             s\<lparr>table := Some (map (\<lambda>r. if key r \<in> key ` set (take k
                                             (filter (\<lambda>r. EventType r = from) items))
                                        then r\<lparr>EventType := to\<rparr> else r) items),
               faults := fs, requests := requests s + k + 2\<rparr>)"
    using RenameEvent_abort[OF tab wf] by blast
next
  assume "faults s = []"
  then show "RenameEvent from to s =
            (None, s\<lparr>table := Some (map (\<lambda>r. if EventType r = from
                                              then r\<lparr>EventType := to\<rparr> else r) items),
                      requests := requests s
                         + Suc (length (filter (\<lambda>r. EventType r = from) items))\<rparr>)"
    by (rule RenameEvent_all[OF tab wf])
next
  fix d :: "('a, 'b) dbEvent" and rest r0
  assume a: "served s \<and> find (\<lambda>r. key r = key d) items = Some r0 \<and> EventType r0 \<noteq> from"
  then have "find (\<lambda>r. key r = (AggregateID d, Version d)) items = Some r0"
    by (simp add: key_def)
  with a tab show "RenameEvent_loop from to (d # rest) s =
            (Some (StoreError (EventStoreError0
                     (StoreFailure (RequestFailure ''ConditionalCheckFailedException'')))),
             s\<lparr>faults := tl (faults s), requests := Suc (requests s)\<rparr>)"
    by (simp add: Update_If_Set_def issue_served)
qed

theorem C10_RenameEvent_witness:
  "distinct (map key [recA1, recA2, recC1])
   \<and> filter (\<lambda>r. EventType r = ''Created'') [recA1, recA2, recC1] = [recA1, recC1]
   \<and> RenameEvent ''Created'' ''Opened''
        (store_of [recA1, recA2, recC1] [None, None, Some (OtherFailure ''timeout'')] 0) =
        (Some (StoreError (EventStoreError0 (StoreFailure (OtherFailure ''timeout'')))),
         store_of [recA1\<lparr>EventType := ''Opened''\<rparr>, recA2, recC1] [] 3)
   \<and> RenameEvent ''Created'' ''Opened'' (store_of [recA1, recA2, recC1] [] 0) =
        (None, store_of [recA1\<lparr>EventType := ''Opened''\<rparr>, recA2,
                         recC1\<lparr>EventType := ''Opened''\<rparr>] [] 3)
   \<and> (\<exists>items'. table (snd (RenameEvent ''Created'' ''Opened''
                              (store_of [recA1, recA2, recC1] [] 0))) = Some items'
         \<and> map key items' = map key [recA1, recA2, recC1]
         \<and> items' ! 1 = recA2)
   \<and> RenameEvent_loop ''Created'' ''Opened'' [recA2, recC1] (store_of [recA1, recA2, recC1] [] 0) =
        (Some (StoreError (EventStoreError0
                 (StoreFailure (RequestFailure ''ConditionalCheckFailedException'')))),
         store_of [recA1, recA2, recC1] [] 1)"
proof -
  let ?items = "[recA1, recA2, recC1]"
  let ?s1 = "store_of ?items [None, None, Some (OtherFailure ''timeout'')] 0"
  let ?s2 = "store_of ?items [] 0"
  have wf: "distinct (map key ?items)"
    by (simp add: recA1_def recA2_def recC1_def store_of_def key_def)
  have m: "filter (\<lambda>r. EventType r = ''Created'') ?items = [recA1, recC1]"
    by (simp add: recA1_def recA2_def recC1_def store_of_def)
  have t1: "table ?s1 = Some ?items" and t2: "table ?s2 = Some ?items"
    by (simp_all add: store_of_def)
  note T1 = C10_RenameEvent[OF t1 wf, of "''Created''" "''Opened''"]
  note T2 = C10_RenameEvent[OF t2 wf, of "''Created''" "''Opened''"]
  have f1: "faults ?s1 = replicate (Suc 1) None @ Some (OtherFailure ''timeout'') # []
            \<and> 1 < length (filter (\<lambda>r. EventType r = ''Created'') ?items)"
    unfolding m by (simp add: store_of_def)
  from T1 f1 have "RenameEvent ''Created'' ''Opened'' ?s1 =
            (Some (StoreError (EventStoreError0 (StoreFailure (OtherFailure ''timeout'')))),
             ?s1\<lparr>table := Some (map (\<lambda>r. if key r \<in> key ` set (take 1
                                             (filter (\<lambda>r. EventType r = ''Created'') ?items))
                                        then r\<lparr>EventType := ''Opened''\<rparr> else r) ?items),
               faults := [], requests := requests ?s1 + 1 + 2\<rparr>)"
    by blast
  then have A: "RenameEvent ''Created'' ''Opened'' ?s1 =
        (Some (StoreError (EventStoreError0 (StoreFailure (OtherFailure ''timeout'')))),
         store_of [recA1\<lparr>EventType := ''Opened''\<rparr>, recA2, recC1] [] 3)"
    unfolding m by (simp add: recA1_def recA2_def recC1_def store_of_def key_def)
  have f2: "faults ?s2 = []" by (simp add: store_of_def)
  from T2 f2 have "RenameEvent ''Created'' ''Opened'' ?s2 =
            (None, ?s2\<lparr>table := Some (map (\<lambda>r. if EventType r = ''Created''
                                              then r\<lparr>EventType := ''Opened''\<rparr> else r) ?items),
                      requests := requests ?s2
                         + Suc (length (filter (\<lambda>r. EventType r = ''Created'') ?items))\<rparr>)"
    by blast
  then have B: "RenameEvent ''Created'' ''Opened'' ?s2 =
        (None, store_of [recA1\<lparr>EventType := ''Opened''\<rparr>, recA2,
                         recC1\<lparr>EventType := ''Opened''\<rparr>] [] 3)"
    unfolding m by (simp add: recA1_def recA2_def recC1_def store_of_def)
  from T2 obtain items' where
    i: "table (snd (RenameEvent ''Created'' ''Opened'' ?s2)) = Some items'"
      "map key items' = map key ?items"
      "\<forall>i<length ?items. items' ! i = ?items ! i
          \<or> (EventType (?items ! i) = ''Created''
             \<and> items' ! i = (?items ! i)\<lparr>EventType := ''Opened''\<rparr>)"
    by blast
  from i(3)[THEN spec, of 1] have "items' ! 1 = recA2"
    by (simp add: recA1_def recA2_def recC1_def store_of_def)
  with i have C: "\<exists>items'. table (snd (RenameEvent ''Created'' ''Opened'' ?s2)) = Some items'
         \<and> map key items' = map key ?items \<and> items' ! 1 = recA2" by blast
  have g: "served ?s2 \<and> find (\<lambda>r. key r = key recA2) ?items = Some recA2
            \<and> EventType recA2 \<noteq> ''Created''"
    by (simp add: recA1_def recA2_def recC1_def store_of_def key_def served_def issue_def)
  from T2 g have "RenameEvent_loop ''Created'' ''Opened'' (recA2 # [recC1]) ?s2 =
            (Some (StoreError (EventStoreError0
                     (StoreFailure (RequestFailure ''ConditionalCheckFailedException'')))),
             ?s2\<lparr>faults := tl (faults ?s2), requests := Suc (requests ?s2)\<rparr>)"
    by blast
  then have D: "RenameEvent_loop ''Created'' ''Opened'' [recA2, recC1] ?s2 =
        (Some (StoreError (EventStoreError0
                 (StoreFailure (RequestFailure ''ConditionalCheckFailedException'')))),
         store_of ?items [] 1)"
    by (simp add: store_of_def)
  from wf m A B C D show ?thesis by blast
qed

end
